theory Spec2Isabelle
  imports Main "HOL-Library.Word"
begin

unbundle bit_operations_syntax

section \<open>Modbus RTU core: frame checksum, register and coil access\<close>

text \<open>
  Source: \<^verbatim>\<open>src/core/modbus_registers.py\<close>, class \<^verbatim>\<open>ModbusRegisters\<close>.

  Bytes on the wire are \<open>8 word\<close>; reading one into Python gives an \<open>int\<close> in
  \<open>0..255\<close>, which is \<open>uint\<close>. All other numbers of the source are Python integers and
  are modelled as \<open>int\<close>; \<open>x >> 8\<close> is \<open>drop_bit 8 x\<close> and \<open>x << 8\<close> is
  \<open>push_bit 8 x\<close>.
\<close>

type_synonym byte = "8 word"

subsection \<open>\<^verbatim>\<open>_calculate_crc16\<close> (lines 762-782)\<close>

text \<open>The inner \<^verbatim>\<open>for _ in range(8)\<close> loop, with the number of rounds still to run.\<close>

fun crc_shift :: "nat \<Rightarrow> int \<Rightarrow> int" where
  "crc_shift 0 crc = crc"
| "crc_shift (Suc n) crc =
     crc_shift n (if crc AND 0x0001 \<noteq> 0 then (drop_bit 1 crc) XOR 0xA001 else drop_bit 1 crc)"

text \<open>The outer \<^verbatim>\<open>for byte in data\<close> loop, with the running value.\<close>

fun crc_loop :: "int \<Rightarrow> byte list \<Rightarrow> int" where
  "crc_loop crc [] = crc"
| "crc_loop crc (b # bs) = crc_loop (crc_shift 8 (crc XOR uint b)) bs"

definition calculate_crc16 :: "byte list \<Rightarrow> int" where
  "calculate_crc16 data = crc_loop 0xFFFF data"

subsection \<open>Byte arrays and the serial link\<close>

text \<open>
  \<^verbatim>\<open>bytearray([...])\<close> raises \<^verbatim>\<open>ValueError\<close> when an element is outside \<open>range(256)\<close>;
  \<open>None\<close> is that exception. Every function below catches it with its
  \<^verbatim>\<open>except Exception\<close> handler.
\<close>

definition in_byte_range :: "int \<Rightarrow> bool" where
  "in_byte_range x = (0 \<le> x \<and> x < 256)"

definition bytearray :: "int list \<Rightarrow> byte list option" where
  "bytearray xs = (if list_all in_byte_range xs then Some (map word_of_int xs) else None)"

text \<open>\<^verbatim>\<open>request.extend([crc & 0xFF, (crc >> 8) & 0xFF])\<close>: both values are masked to a byte.\<close>

definition append_crc :: "byte list \<Rightarrow> byte list" where
  "append_crc request =
     (let crc = calculate_crc16 request
      in request @ [word_of_int (crc AND 0xFF), word_of_int ((drop_bit 8 crc) AND 0xFF)])"

text \<open>
  The \<^verbatim>\<open>serial.Serial\<close> object as far as this module uses it: whether the port is open,
  whether \<^verbatim>\<open>write\<close>/\<^verbatim>\<open>flush\<close> or \<^verbatim>\<open>read\<close> raise, the bytes the link will deliver to
  the next \<^verbatim>\<open>read\<close>, the frames written so far (oldest first) and the number of flushes.
  \<^verbatim>\<open>self.connection\<close> may be \<^verbatim>\<open>None\<close>: a \<open>serial option\<close>.
\<close>

record serial =
  is_open :: bool
  write_raises :: bool
  read_raises :: bool
  rx :: "byte list"
  tx :: "byte list list"
  flushed :: nat

text \<open>\<^verbatim>\<open>connection.write(request); connection.flush()\<close>\<close>

definition write_flush :: "serial \<Rightarrow> byte list \<Rightarrow> serial" where
  "write_flush c request = c\<lparr>tx := tx c @ [request], flushed := Suc (flushed c)\<rparr>"

text \<open>\<^verbatim>\<open>connection.read(100)\<close>: at most 100 of the pending bytes.\<close>

definition read100 :: "serial \<Rightarrow> serial \<times> byte list" where
  "read100 c = (c\<lparr>rx := drop 100 (rx c)\<rparr>, take 100 (rx c))"

text \<open>
  \<^verbatim>\<open>response_crc = response[-2] | (response[-1] << 8)\<close> and
  \<^verbatim>\<open>calculated_crc = _calculate_crc16(response[:-2])\<close>; used only on responses of at
  least two bytes (every caller has checked a minimum length before).
\<close>

definition response_crc :: "byte list \<Rightarrow> int" where
  "response_crc response =
     uint (response ! (length response - 2)) OR push_bit 8 (uint (response ! (length response - 1)))"

definition calculated_crc :: "byte list \<Rightarrow> int" where
  "calculated_crc response = calculate_crc16 (take (length response - 2) response)"

text \<open>
  A link that is open, raises nothing, has written nothing yet and will deliver the given
  bytes to the next read: the link of the concrete exchanges below.
\<close>

definition open_link :: "byte list \<Rightarrow> serial" where
  "open_link pending =
     \<lparr>is_open = True, write_raises = False, read_raises = False,
      rx = pending, tx = [], flushed = 0\<rparr>"

subsection \<open>\<^verbatim>\<open>_read_registers_with_function\<close> (lines 53-186)\<close>

text \<open>
  Lines 136-147: the loop \<^verbatim>\<open>for i in range(8, len(hex_parts), 2)\<close> taken when the device
  answers with function 0x11. \<^verbatim>\<open>hex_parts[i]\<close> is \<^verbatim>\<open>f"{b:02X}"\<close> of a response byte and
  \<^verbatim>\<open>int(hex_parts[i], 16)\<close> reads it back, so the value is the byte itself and the
  \<^verbatim>\<open>ValueError\<close> branch is never taken. The function is the loop from index \<open>i\<close> on, with
  the registers collected so far; \<^verbatim>\<open>break\<close> is the branch that returns.
\<close>

function extract_f11 :: "int \<Rightarrow> byte list \<Rightarrow> nat \<Rightarrow> int list \<Rightarrow> int list" where
  "extract_f11 count response i registers =
     (if i < length response then
        (if i + 1 < length response then
           (let reg_value = push_bit 8 (uint (response ! i)) OR uint (response ! (i + 1));
                registers' = registers @ [reg_value]
            in if int (length registers') \<ge> count then registers'
               else extract_f11 count response (i + 2) registers')
         else extract_f11 count response (i + 2) registers)
      else registers)"
  by pat_completeness auto
termination
  by (relation "measure (\<lambda>(count, response, i, registers). length response - i)") auto

declare extract_f11.simps [simp del]

text \<open>
  Lines 172-177: the loop \<^verbatim>\<open>for i in range(0, byte_count, 2)\<close> of a regular answer, from
  index \<open>i\<close> on.
\<close>

function collect_registers :: "int \<Rightarrow> byte list \<Rightarrow> nat \<Rightarrow> int list \<Rightarrow> int list" where
  "collect_registers byte_count response i registers =
     (if int i < byte_count then
        (if 3 + i + 1 < length response then
           collect_registers byte_count response (i + 2)
             (registers @ [push_bit 8 (uint (response ! (3 + i))) OR uint (response ! (3 + i + 1))])
         else collect_registers byte_count response (i + 2) registers)
      else registers)"
  by pat_completeness auto
termination
  by (relation "measure (\<lambda>(byte_count, response, i, registers). nat byte_count - i)") auto

declare collect_registers.simps [simp del]

text \<open>
  Lines 101-181: what the function returns for the bytes it has read. \<open>None\<close> is Python's
  \<^verbatim>\<open>None\<close>, \<open>Some regs\<close> a list (which may be empty).
\<close>

definition decode_read_response :: "int \<Rightarrow> int \<Rightarrow> int \<Rightarrow> byte list \<Rightarrow> int list option" where
  "decode_read_response device_address function_code count response =
     (if response = [] then None
      else if length response < 5 then None
      else if response_crc response \<noteq> calculated_crc response then Some []
      else if uint (response ! 0) \<noteq> device_address then None
      else if uint (response ! 1) \<noteq> function_code then
        (if uint (response ! 1) = 0x11 then
           (let registers = extract_f11 count response 8 []
            in if registers \<noteq> [] then Some registers else None)
         else None)
      else
        (let byte_count = uint (response ! 2);
             expected_length = 5 + byte_count
         in if int (length response) < expected_length then None
            else Some (collect_registers byte_count response 0 [])))"

text \<open>The whole exchange; the link is returned as the call leaves it.\<close>

definition read_registers_with_function ::
  "serial option \<Rightarrow> int \<Rightarrow> int \<Rightarrow> int \<Rightarrow> int \<Rightarrow> serial option \<times> int list option" where
  "read_registers_with_function connection device_address start_address count function_code =
     (case connection of
        None \<Rightarrow> (None, None)
      | Some c \<Rightarrow>
          if \<not> is_open c then (Some c, None)
          else
            (case bytearray [device_address, function_code,
                             (drop_bit 8 start_address) AND 0xFF, start_address AND 0xFF,
                             (drop_bit 8 count) AND 0xFF, count AND 0xFF] of
               None \<Rightarrow> (Some c, None)
             | Some request \<Rightarrow>
                 if write_raises c then (Some c, None)
                 else
                   (let c1 = write_flush c (append_crc request)
                    in if read_raises c1 then (Some c1, None)
                       else
                         (let (c2, response) = read100 c1
                          in (Some c2,
                              decode_read_response device_address function_code count response)))))"

text \<open>
  \<^verbatim>\<open>read_holding_registers\<close> (lines 32-51): function 0x03, and function 0x04 when the first
  result is falsy (\<^verbatim>\<open>None\<close> or an empty list).
\<close>

definition read_holding_registers ::
  "serial option \<Rightarrow> int \<Rightarrow> int \<Rightarrow> int \<Rightarrow> serial option \<times> int list option" where
  "read_holding_registers connection device_address start_address count =
     (let (connection', result) =
            read_registers_with_function connection device_address start_address count 0x03
      in if result \<noteq> None \<and> result \<noteq> Some [] then (connection', result)
         else read_registers_with_function connection' device_address start_address count 0x04)"

subsection \<open>Register and coil writes (lines 188-760)\<close>

text \<open>
  Every write function returns a \<^verbatim>\<open>bool\<close>; which of its branches produced the \<^verbatim>\<open>False\<close>
  is visible only in what it logs. The outcome type keeps that branch; \<open>write_returns\<close>
  is the returned \<^verbatim>\<open>bool\<close>. \<open>Written w\<close> is the successful branch; \<open>w\<close> is false when
  the echoed start address or the echoed count differs from the request, which logs a
  warning and changes nothing else.
\<close>

datatype write_outcome =
    NotInitialised
  | PortClosed
  | NoValues
  | RaisedException
  | ReadError
  | NoResponse
  | ShortResponse
  | CrcMismatch
  | AddressMismatch
  | ExceptionResponse int
  | UnexpectedFunction int
  | Written bool

fun write_returns :: "write_outcome \<Rightarrow> bool" where
  "write_returns (Written w) = True"
| "write_returns other = False"

text \<open>
  Lines 261-327 (and, with another function code and other log labels, 687-753): the
  checks on the bytes read, for the expected function code \<open>fc\<close> and the echo of
  \<open>start_address\<close> and \<open>count\<close>.
\<close>

definition check_write_response :: "int \<Rightarrow> int \<Rightarrow> int \<Rightarrow> int \<Rightarrow> byte list \<Rightarrow> write_outcome" where
  "check_write_response device_address fc start_address count response =
     (if response = [] then NoResponse
      else if length response < 8 then ShortResponse
      else if response_crc response \<noteq> calculated_crc response then CrcMismatch
      else if uint (response ! 0) \<noteq> device_address then AddressMismatch
      else if uint (response ! 1) \<noteq> fc then
        (if uint (response ! 1) AND 0x80 \<noteq> 0 then ExceptionResponse (uint (response ! 2))
         else UnexpectedFunction (uint (response ! 1)))
      else
        (let response_start = push_bit 8 (uint (response ! 2)) OR uint (response ! 3);
             response_count = push_bit 8 (uint (response ! 4)) OR uint (response ! 5)
         in Written (response_start = start_address \<and> response_count = count)))"

text \<open>
  Lines 237-259 (and 663-685): append the checksum, write, flush, read up to 100 bytes. An
  exception of \<^verbatim>\<open>write\<close> or \<^verbatim>\<open>flush\<close> reaches the outer handler, one of \<^verbatim>\<open>read\<close> the
  inner one; both return \<^verbatim>\<open>False\<close>.
\<close>

definition write_exchange ::
  "serial \<Rightarrow> byte list \<Rightarrow> (byte list \<Rightarrow> write_outcome) \<Rightarrow> serial \<times> write_outcome" where
  "write_exchange c request check =
     (if write_raises c then (c, RaisedException)
      else
        (let c1 = write_flush c (append_crc request)
         in if read_raises c1 then (c1, ReadError)
            else (let (c2, response) = read100 c1 in (c2, check response))))"

text \<open>
  \<^verbatim>\<open>for value in values: request.extend([(value >> 8) & 0xFF, value & 0xFF])\<close>
\<close>

fun register_bytes :: "int list \<Rightarrow> byte list" where
  "register_bytes [] = []"
| "register_bytes (v # vs) =
     word_of_int ((drop_bit 8 v) AND 0xFF) # word_of_int (v AND 0xFF) # register_bytes vs"

text \<open>\<^verbatim>\<open>write_holding_registers\<close> (lines 188-334), function 0x10.\<close>

definition write_holding_registers ::
  "serial option \<Rightarrow> int \<Rightarrow> int \<Rightarrow> int list \<Rightarrow> serial option \<times> write_outcome" where
  "write_holding_registers connection device_address start_address values =
     (case connection of
        None \<Rightarrow> (None, NotInitialised)
      | Some c \<Rightarrow>
          if \<not> is_open c then (Some c, PortClosed)
          else if values = [] then (Some c, NoValues)
          else
            (let count = int (length values);
                 byte_count = count * 2
             in case bytearray [device_address, 0x10,
                                (drop_bit 8 start_address) AND 0xFF, start_address AND 0xFF,
                                (drop_bit 8 count) AND 0xFF, count AND 0xFF, byte_count] of
                  None \<Rightarrow> (Some c, RaisedException)
                | Some header \<Rightarrow>
                    (let (c', outcome) =
                           write_exchange c (header @ register_bytes values)
                             (check_write_response device_address 0x10 start_address count)
                     in (Some c', outcome))))"

text \<open>
  Lines 654-659: \<^verbatim>\<open>coil_bytes = bytearray(byte_count)\<close> and the loop over
  \<^verbatim>\<open>enumerate(values)\<close>, from index \<open>i\<close> on. The index \<open>i // 8\<close> is always inside
  \<open>coil_bytes\<close>, since \<open>byte_count = (count + 7) // 8\<close>.
\<close>

fun pack_coils :: "bool list \<Rightarrow> nat \<Rightarrow> byte list \<Rightarrow> byte list" where
  "pack_coils [] i coil_bytes = coil_bytes"
| "pack_coils (v # vs) i coil_bytes =
     pack_coils vs (Suc i)
       (if v then coil_bytes[i div 8 := (coil_bytes ! (i div 8)) OR push_bit (i mod 8) 1]
        else coil_bytes)"

text \<open>\<^verbatim>\<open>write_multiple_coils\<close> (lines 607-760), function 0x0F.\<close>

definition write_multiple_coils ::
  "serial option \<Rightarrow> int \<Rightarrow> int \<Rightarrow> bool list \<Rightarrow> serial option \<times> write_outcome" where
  "write_multiple_coils connection device_address start_address values =
     (case connection of
        None \<Rightarrow> (None, NotInitialised)
      | Some c \<Rightarrow>
          if \<not> is_open c then (Some c, PortClosed)
          else if values = [] then (Some c, NoValues)
          else
            (let count = int (length values);
                 byte_count = (count + 7) div 8
             in case bytearray [device_address, 0x0F,
                                (drop_bit 8 start_address) AND 0xFF, start_address AND 0xFF,
                                (drop_bit 8 count) AND 0xFF, count AND 0xFF, byte_count] of
                  None \<Rightarrow> (Some c, RaisedException)
                | Some header \<Rightarrow>
                    (let coil_bytes = pack_coils values 0 (replicate (nat byte_count) 0);
                         (c', outcome) =
                           write_exchange c (header @ coil_bytes)
                             (check_write_response device_address 0x0F start_address count)
                     in (Some c', outcome))))"

subsection \<open>The reading of an identification answer, as the specification words it\<close>

text \<open>
  "Register values are extracted by scanning 16-bit big-endian pairs starting 8 bytes
  into the payload": the pairs of a byte sequence, a last single byte left out; they are
  taken from \<open>drop 8 response\<close>.
\<close>

fun be16_pairs :: "byte list \<Rightarrow> int list" where
  "be16_pairs (hi # lo # rest) = (push_bit 8 (uint hi) OR uint lo) # be16_pairs rest"
| "be16_pairs other = []"

section \<open>Connection health monitor\<close>

text \<open>
  Source: \<^verbatim>\<open>src/wizard/connection_monitor.py\<close>, class \<^verbatim>\<open>ConnectionMonitor\<close>. The fields
  that \<^verbatim>\<open>run\<close> reads and writes; \<open>should_stop\<close> is set from outside, see \<open>run\<close> below.
\<close>

record monitor =
  fast_mode :: bool
  is_connected :: bool
  consecutive_failures :: int
  max_failures :: int

text \<open>\<^verbatim>\<open>__init__\<close> (lines 28-36)\<close>

definition monitor_init :: "bool \<Rightarrow> monitor" where
  "monitor_init fast =
     \<lparr>fast_mode = fast, is_connected = True, consecutive_failures = 0,
      max_failures = (if fast then 2 else 3)\<rparr>"

text \<open>
  What one pass of the loop finds: the worker is missing or not connected (line 45);
  \<^verbatim>\<open>read_device_info()\<close> returns something truthy, returns something falsy, or raises.
\<close>

datatype probe = WorkerDown | Answered | Silent | ProbeRaised

datatype signal = device_disconnected | device_reconnected

text \<open>One pass of the \<^verbatim>\<open>while\<close> loop (lines 43-78): the new fields and the signals emitted.\<close>

fun monitor_pass :: "monitor \<Rightarrow> probe \<Rightarrow> monitor \<times> signal list" where
  "monitor_pass m WorkerDown =
     (let m1 = m\<lparr>consecutive_failures := consecutive_failures m + 1\<rparr>
      in if consecutive_failures m1 \<ge> max_failures m1 then
           (if is_connected m1 then (m1\<lparr>is_connected := False\<rparr>, [device_disconnected])
            else (m1, []))
         else (m1, []))"
| "monitor_pass m Answered =
     (if \<not> is_connected m then
        (m\<lparr>is_connected := True, consecutive_failures := 0\<rparr>, [device_reconnected])
      else (m\<lparr>consecutive_failures := 0\<rparr>, []))"
| "monitor_pass m Silent =
     (let m1 = m\<lparr>consecutive_failures := consecutive_failures m + 1\<rparr>
      in if consecutive_failures m1 \<ge> max_failures m1 then
           (m1\<lparr>is_connected := False\<rparr>, [device_disconnected])
         else (m1, []))"
| "monitor_pass m ProbeRaised =
     (let m1 = m\<lparr>consecutive_failures := consecutive_failures m + 1\<rparr>
      in if consecutive_failures m1 \<ge> max_failures m1 then
           (if is_connected m1 then (m1\<lparr>is_connected := False\<rparr>, [device_disconnected])
            else (m1, []))
         else (m1, []))"

text \<open>The passes of the loop in turn, the signals in the order they are emitted.\<close>

fun monitor_loop :: "monitor \<Rightarrow> probe list \<Rightarrow> monitor \<times> signal list" where
  "monitor_loop m [] = (m, [])"
| "monitor_loop m (p # ps) =
     (let (m1, out1) = monitor_pass m p;
          (m2, out2) = monitor_loop m1 ps
      in (m2, out1 @ out2))"

text \<open>
  \<^verbatim>\<open>run\<close> (lines 38-81): the counter is reset, then the loop runs until \<^verbatim>\<open>should_stop\<close> is
  set; the argument lists what the passes made before that found.
\<close>

definition run :: "monitor \<Rightarrow> probe list \<Rightarrow> monitor \<times> signal list" where
  "run m ps = monitor_loop (m\<lparr>consecutive_failures := 0\<rparr>) ps"

section \<open>Discovery scan\<close>

text \<open>
  Source: \<^verbatim>\<open>src/auto_search_worker.py\<close>. \<open>scanner.scan_single(address, baudrate)\<close> is the
  probe; its result is used only for its truth value, given here by an environment \<open>env\<close>.
  \<^verbatim>\<open>should_stop\<close> is set by another thread (\<^verbatim>\<open>stop\<close>, lines 183-185); \<open>stop n\<close> is the
  value the scan reads once \<open>n\<close> probes have been issued.
\<close>

definition SEARCH_BAUDRATES :: "int list" where
  "SEARCH_BAUDRATES = [115200, 57600, 38400, 19200, 9600]"

definition MIN_ADDRESS :: int where
  "MIN_ADDRESS = 1"

definition MAX_ADDRESS :: int where
  "MAX_ADDRESS = 200"

text \<open>
  The \<^verbatim>\<open>search_complete\<close> signal that ends the scan: found (with \<^verbatim>\<open>device_found\<close>),
  stopped by the user, or not found in the address range.
\<close>

datatype scan_result = Found int int | Cancelled | Exhausted

text \<open>
  The probes issued, in order, and the addresses announced by \<^verbatim>\<open>search_progress\<close>.
\<close>

record scan_log =
  probes :: "(int \<times> int) list"
  progress :: "int list"

text \<open>
  Lines 105-135: the loop over the speeds of one address, from the speeds still to try.
  \<open>None\<close>: the loop ended without \<^verbatim>\<open>return\<close>. After a success the source reads the device
  information (\<^verbatim>\<open>_read_device_info\<close>) for the \<^verbatim>\<open>device_found\<close> signal; that is a
  separate exchange and not a \<^verbatim>\<open>scan_single\<close> probe.
\<close>

fun baudrate_loop ::
  "(int \<times> int \<Rightarrow> bool) \<Rightarrow> (nat \<Rightarrow> bool) \<Rightarrow> int \<Rightarrow> int list \<Rightarrow> scan_log
     \<Rightarrow> scan_log \<times> scan_result option" where
  "baudrate_loop env stop address [] s = (s, None)"
| "baudrate_loop env stop address (baudrate # rest) s =
     (if stop (length (probes s)) then (s, Some Cancelled)
      else
        (let s1 = s\<lparr>probes := probes s @ [(address, baudrate)]\<rparr>
         in if env (address, baudrate) then (s1, Some (Found address baudrate))
            else baudrate_loop env stop address rest s1))"

text \<open>Lines 97-140: the loop over the addresses, from the addresses still to try.\<close>

fun address_loop ::
  "(int \<times> int \<Rightarrow> bool) \<Rightarrow> (nat \<Rightarrow> bool) \<Rightarrow> int list \<Rightarrow> scan_log \<Rightarrow> scan_log \<times> scan_result" where
  "address_loop env stop [] s = (s, Exhausted)"
| "address_loop env stop (address # rest) s =
     (if stop (length (probes s)) then (s, Cancelled)
      else
        (let s1 = s\<lparr>progress := progress s @ [address]\<rparr>;
             (s2, r) = baudrate_loop env stop address SEARCH_BAUDRATES s1
         in case r of
              Some result \<Rightarrow> (s2, result)
            | None \<Rightarrow> address_loop env stop rest s2))"

text \<open>\<^verbatim>\<open>_sequential_search\<close>: \<^verbatim>\<open>range(MIN_ADDRESS, MAX_ADDRESS + 1)\<close>.\<close>

definition sequential_search ::
  "(int \<times> int \<Rightarrow> bool) \<Rightarrow> (nat \<Rightarrow> bool) \<Rightarrow> scan_log \<times> scan_result" where
  "sequential_search env stop =
     address_loop env stop [MIN_ADDRESS..MAX_ADDRESS] \<lparr>probes = [], progress = []\<rparr>"

text \<open>
  \<^verbatim>\<open>quick_auto_search\<close> (lines 194-220), once the scanner is available: the same two
  loops with literal ranges, no stop flag and no progress signal. The result is the
  probe log and the pair found, \<open>None\<close> for "not found".
\<close>

fun quick_baudrate_loop ::
  "(int \<times> int \<Rightarrow> bool) \<Rightarrow> int \<Rightarrow> int list \<Rightarrow> (int \<times> int) list
     \<Rightarrow> (int \<times> int) list \<times> (int \<times> int) option" where
  "quick_baudrate_loop env address [] log = (log, None)"
| "quick_baudrate_loop env address (baudrate # rest) log =
     (if env (address, baudrate) then (log @ [(address, baudrate)], Some (address, baudrate))
      else quick_baudrate_loop env address rest (log @ [(address, baudrate)]))"

fun quick_address_loop ::
  "(int \<times> int \<Rightarrow> bool) \<Rightarrow> int list \<Rightarrow> (int \<times> int) list
     \<Rightarrow> (int \<times> int) list \<times> (int \<times> int) option" where
  "quick_address_loop env [] log = (log, None)"
| "quick_address_loop env (address # rest) log =
     (case quick_baudrate_loop env address [115200, 57600, 38400, 19200, 9600] log of
        (log1, Some found) \<Rightarrow> (log1, Some found)
      | (log1, None) \<Rightarrow> quick_address_loop env rest log1)"

definition quick_auto_search ::
  "(int \<times> int \<Rightarrow> bool) \<Rightarrow> (int \<times> int) list \<times> (int \<times> int) option" where
  "quick_auto_search env = quick_address_loop env [1..200] []"

text \<open>
  The search space in the order the documentation of the class gives it: address 1 at
  every speed, then address 2 at every speed, up to address 200.
\<close>

definition search_space :: "(int \<times> int) list" where
  "search_space =
     concat (map (\<lambda>address. map (\<lambda>baudrate. (address, baudrate))
                                 [115200, 57600, 38400, 19200, 9600]) [1..200])"

text \<open>
  The scan over a flat list of (address, speed) pairs, from a log of the probes issued
  before: test the flag, probe, stop at a success. The nested loops of the source are
  compared with it below.
\<close>

fun probe_run ::
  "(int \<times> int \<Rightarrow> bool) \<Rightarrow> (nat \<Rightarrow> bool) \<Rightarrow> (int \<times> int) list \<Rightarrow> (int \<times> int) list
     \<Rightarrow> (int \<times> int) list \<times> scan_result" where
  "probe_run env stop [] log = (log, Exhausted)"
| "probe_run env stop (p # ps) log =
     (if stop (length log) then (log, Cancelled)
      else if env p then (log @ [p], Found (fst p) (snd p))
      else probe_run env stop ps (log @ [p]))"

text \<open>
  Two concrete surroundings of a scan: a device that answers at one (address, speed) pair
  and nowhere else, and a stop requested while probe number \<open>k\<close> is in flight (or right
  after it), so that the flag reads unset until \<open>k\<close> probes have been issued and set from
  then on.
\<close>

definition only_device :: "int \<times> int \<Rightarrow> int \<times> int \<Rightarrow> bool" where
  "only_device device pair = (pair = device)"

definition stop_requested_after :: "nat \<Rightarrow> nat \<Rightarrow> bool" where
  "stop_requested_after k n = (k \<le> n)"

section \<open>Device identity decoder\<close>

text \<open>
  Source: \<^verbatim>\<open>src/core/device_response_parser_fixed.py\<close>,
  \<^verbatim>\<open>parse_specific_device_response\<close>. Its argument is the response as a hexadecimal
  string (\<^verbatim>\<open>response.hex()\<close> or the space separated upper case form).
\<close>

subsection \<open>The string operations of Python that the decoder uses\<close>

definition hex_digit_value :: "char \<Rightarrow> int option" where
  "hex_digit_value c =
     map_of (zip ''0123456789abcdefABCDEF''
                 [0, 1, 2, 3, 4, 5, 6, 7, 8, 9, 10, 11, 12, 13, 14, 15, 10, 11, 12, 13, 14, 15]) c"

fun int16_digits :: "int \<Rightarrow> string \<Rightarrow> int option" where
  "int16_digits acc [] = Some acc"
| "int16_digits acc (c # cs) =
     (case hex_digit_value c of
        None \<Rightarrow> None
      | Some d \<Rightarrow> int16_digits (16 * acc + d) cs)"

text \<open>
  \<^verbatim>\<open>int(s, 16)\<close>, \<open>None\<close> for \<^verbatim>\<open>ValueError\<close>. The model reads strings of hexadecimal
  digits. Python accepts a few more forms (a sign, surrounding white space, a \<^verbatim>\<open>0x\<close>
  prefix, single underscores between digits), which the model rejects; the statements
  about the decoder below are about strings of hexadecimal digits and separators.
\<close>

definition py_int16 :: "string \<Rightarrow> int option" where
  "py_int16 s = (if s = [] then None else int16_digits 0 s)"

text \<open>
  \<^verbatim>\<open>f"{n}"\<close> for an integer that is not negative (\<open>py_int16\<close> yields no other).
\<close>

function decimal :: "int \<Rightarrow> string" where
  "decimal n =
     (if n < 10 then [''0123456789'' ! nat n]
      else decimal (n div 10) @ [''0123456789'' ! nat (n mod 10)])"
  by pat_completeness auto
termination
  by (relation "measure nat") auto

declare decimal.simps [simp del]

text \<open>\<^verbatim>\<open>f"{n:02d}"\<close>: at least two digits, padded with zeros.\<close>

definition fmt_02d :: "int \<Rightarrow> string" where
  "fmt_02d n = (if n < 10 then CHR ''0'' # decimal n else decimal n)"

text \<open>\<^verbatim>\<open>str.upper\<close> on ASCII text.\<close>

definition upper_char :: "char \<Rightarrow> char" where
  "upper_char c =
     (case map_of (zip ''abcdefghijklmnopqrstuvwxyz'' ''ABCDEFGHIJKLMNOPQRSTUVWXYZ'') c of
        None \<Rightarrow> c
      | Some u \<Rightarrow> u)"

definition upper :: "string \<Rightarrow> string" where
  "upper s = map upper_char s"

text \<open>\<^verbatim>\<open>' '.join(parts)\<close>\<close>

fun join_space :: "string list \<Rightarrow> string" where
  "join_space [] = []"
| "join_space [x] = x"
| "join_space (x # y # rest) = x @ '' '' @ join_space (y # rest)"

text \<open>\<^verbatim>\<open>xs[i:j]\<close> for \<open>0 \<le> i \<le> j\<close>: never raises, shorter when \<open>xs\<close> is.\<close>

definition py_slice :: "'a list \<Rightarrow> nat \<Rightarrow> nat \<Rightarrow> 'a list" where
  "py_slice xs i j = take (j - i) (drop i xs)"

text \<open>
  \<^verbatim>\<open>bytes.fromhex(s)\<close> on a string without white space: the byte values, \<open>None\<close> for
  \<^verbatim>\<open>ValueError\<close> (an odd length or a character that is no hexadecimal digit).
\<close>

fun fromhex :: "string \<Rightarrow> int list option" where
  "fromhex [] = Some []"
| "fromhex [c] = None"
| "fromhex (a # b # rest) =
     (case hex_digit_value a of
        None \<Rightarrow> None
      | Some h \<Rightarrow>
          (case hex_digit_value b of
             None \<Rightarrow> None
           | Some l \<Rightarrow>
               (case fromhex rest of
                  None \<Rightarrow> None
                | Some bs \<Rightarrow> Some ((16 * h + l) # bs))))"

text \<open>
  \<^verbatim>\<open>.decode('ascii', errors='ignore').strip()\<close>: bytes from 128 on are dropped, then
  leading and trailing white space (codes 9 to 13, 28 to 31 and 32) is removed.
\<close>

definition py_isspace :: "int \<Rightarrow> bool" where
  "py_isspace b = ((9 \<le> b \<and> b \<le> 13) \<or> (28 \<le> b \<and> b \<le> 32))"

definition decode_ascii_strip :: "int list \<Rightarrow> string" where
  "decode_ascii_strip bs =
     map char_of (rev (dropWhile py_isspace (rev (dropWhile py_isspace (filter (\<lambda>b. b < 128) bs)))))"

subsection \<open>The decoded fields\<close>

text \<open>
  The result dictionary as a record; a key that is absent is \<open>None\<close>. The keys of
  \<^verbatim>\<open>device_specific_data\<close> are fields of the same record. Of each entry the keys
  \<^verbatim>\<open>value\<close>, \<^verbatim>\<open>hex_format\<close> and the decoded numbers are kept; the fixed
  \<^verbatim>\<open>description\<close> text and the \<^verbatim>\<open>bytes\<close> position label are left out.
\<close>

record word_field =
  wf_value :: string
  wf_hex_format :: string
  wf_reversed_hex :: string

record version_field =
  ver_value :: string
  ver_hex_format :: string
  ver_major :: int
  ver_minor :: int

record ver_status_field =
  vs_value :: string
  vs_hex_format :: string
  vs_decimal :: int

record io_counts_field =
  io_value :: string
  digital_inputs :: int
  digital_outputs :: int
  analog_inputs :: int
  analog_outputs :: int

record crc_field =
  crc_value :: string
  crc_hex_format :: string

record parsed_data =
  header_device_address :: string
  header_function_code :: string
  magic :: "word_field option"
  software :: "version_field option"
  hardware :: "version_field option"
  ver_status :: "ver_status_field option"
  status :: "word_field option"
  io_counts :: "io_counts_field option"
  product_id :: "word_field option"
  raw_hex :: string
  byte_count :: nat
  crc_entry :: "crc_field option"
  parse_error :: bool

text \<open>
  What the call does: return the dictionary that holds only \<^verbatim>\<open>error\<close> (line 24), let the
  \<^verbatim>\<open>ValueError\<close> of lines 27-28 escape, or return \<^verbatim>\<open>parsed_data\<close>.
\<close>

datatype parse_outcome = InsufficientData | UncaughtValueError | Parsed parsed_data

text \<open>Line 20 and line 21.\<close>

definition strip_separators :: "string \<Rightarrow> string" where
  "strip_separators hex_response =
     filter (\<lambda>c. c \<noteq> CHR '' '' \<and> c \<noteq> CHR 0x0D \<and> c \<noteq> CHR 0x0A) hex_response"

fun chunk2 :: "string \<Rightarrow> string list" where
  "chunk2 [] = []"
| "chunk2 [a] = [[a]]"
| "chunk2 (a # b # rest) = [a, b] # chunk2 rest"

text \<open>
  The statements of the \<^verbatim>\<open>try\<close> block, one function each: \<open>None\<close> when the statement
  raises (the dictionary is then as it was before the statement).
\<close>

text \<open>Lines 43-52 and 133-142: four bytes read in reversed order.\<close>

definition reversed_word :: "string list \<Rightarrow> word_field option" where
  "reversed_word four_bytes =
     (let reversed = concat (rev four_bytes)
      in case py_int16 reversed of
           None \<Rightarrow> None
         | Some v \<Rightarrow>
             Some \<lparr>wf_value = decimal v @ '' ('' @ upper reversed @ '')'',
                   wf_hex_format = join_space four_bytes,
                   wf_reversed_hex = upper reversed\<rparr>)"

definition magic_step :: "string list \<Rightarrow> parsed_data \<Rightarrow> parsed_data option" where
  "magic_step byte_list p =
     (if length byte_list \<ge> 8 then
        (case reversed_word (py_slice byte_list 4 8) of
           None \<Rightarrow> None
         | Some f \<Rightarrow> Some (p\<lparr>magic := Some f\<rparr>))
      else Some p)"

text \<open>Lines 55-66 and 69-80: a version, one byte major and one byte minor.\<close>

definition version_of :: "string list \<Rightarrow> version_field option" where
  "version_of two_bytes =
     (case py_int16 (two_bytes ! 0) of
        None \<Rightarrow> None
      | Some major \<Rightarrow>
          (case py_int16 (two_bytes ! 1) of
             None \<Rightarrow> None
           | Some minor \<Rightarrow>
               Some \<lparr>ver_value = ''V'' @ fmt_02d major @ ''.'' @ fmt_02d minor,
                     ver_hex_format = join_space two_bytes,
                     ver_major = major, ver_minor = minor\<rparr>))"

definition software_step :: "string list \<Rightarrow> parsed_data \<Rightarrow> parsed_data option" where
  "software_step byte_list p =
     (if length byte_list \<ge> 10 then
        (case version_of (py_slice byte_list 8 10) of
           None \<Rightarrow> None
         | Some f \<Rightarrow> Some (p\<lparr>software := Some f\<rparr>))
      else Some p)"

definition hardware_step :: "string list \<Rightarrow> parsed_data \<Rightarrow> parsed_data option" where
  "hardware_step byte_list p =
     (if length byte_list \<ge> 12 then
        (case version_of (py_slice byte_list 10 12) of
           None \<Rightarrow> None
         | Some f \<Rightarrow> Some (p\<lparr>hardware := Some f\<rparr>))
      else Some p)"

text \<open>Lines 83-92.\<close>

definition ver_status_step :: "string list \<Rightarrow> parsed_data \<Rightarrow> parsed_data option" where
  "ver_status_step byte_list p =
     (if length byte_list \<ge> 16 then
        (let verstatus_bytes = py_slice byte_list 12 16
         in case py_int16 (concat verstatus_bytes) of
              None \<Rightarrow> None
            | Some v \<Rightarrow>
                Some (p\<lparr>ver_status :=
                  Some \<lparr>vs_value = ''0x'' @ upper (concat verstatus_bytes) @ '' ('' @ decimal v @ '')'',
                        vs_hex_format = join_space verstatus_bytes,
                        vs_decimal = v\<rparr>\<rparr>))
      else Some p)"

text \<open>
  Lines 95-112: the status word, as text when it decodes to some, in hexadecimal
  otherwise; the inner \<^verbatim>\<open>try\<close> catches what \<^verbatim>\<open>fromhex\<close> raises.
\<close>

definition status_text_of :: "string \<Rightarrow> string" where
  "status_text_of status_reversed =
     (case fromhex status_reversed of
        None \<Rightarrow> ''0x'' @ upper status_reversed
      | Some bs \<Rightarrow>
          (let status_text = decode_ascii_strip bs
           in if status_text = [] then ''0x'' @ upper status_reversed else status_text))"

definition status_step :: "string list \<Rightarrow> parsed_data \<Rightarrow> parsed_data option" where
  "status_step byte_list p =
     (if length byte_list \<ge> 20 then
        (let status_bytes = py_slice byte_list 16 20;
             status_reversed = concat (rev status_bytes)
         in Some (p\<lparr>status :=
              Some \<lparr>wf_value = status_text_of status_reversed,
                    wf_hex_format = join_space status_bytes,
                    wf_reversed_hex = upper status_reversed\<rparr>\<rparr>))
      else Some p)"

text \<open>Lines 115-130: four counts of one byte each.\<close>

definition io_counts_step :: "string list \<Rightarrow> parsed_data \<Rightarrow> parsed_data option" where
  "io_counts_step byte_list p =
     (if length byte_list \<ge> 24 then
        (let io_bytes = py_slice byte_list 20 24
         in case py_int16 (io_bytes ! 0) of
              None \<Rightarrow> None
            | Some di_count \<Rightarrow>
         (case py_int16 (io_bytes ! 1) of
              None \<Rightarrow> None
            | Some do_count \<Rightarrow>
         (case py_int16 (io_bytes ! 2) of
              None \<Rightarrow> None
            | Some ai_count \<Rightarrow>
         (case py_int16 (io_bytes ! 3) of
              None \<Rightarrow> None
            | Some ao_count \<Rightarrow>
                Some (p\<lparr>io_counts :=
                  Some \<lparr>io_value = decimal di_count @ ''/'' @ decimal do_count @ ''/''
                                     @ decimal ai_count @ ''/'' @ decimal ao_count,
                        digital_inputs = di_count, digital_outputs = do_count,
                        analog_inputs = ai_count, analog_outputs = ao_count\<rparr>\<rparr>)))))
      else Some p)"

definition product_id_step :: "string list \<Rightarrow> parsed_data \<Rightarrow> parsed_data option" where
  "product_id_step byte_list p =
     (if length byte_list \<ge> 32 then
        (case reversed_word (py_slice byte_list 28 32) of
           None \<Rightarrow> None
         | Some f \<Rightarrow> Some (p\<lparr>product_id := Some f\<rparr>))
      else Some p)"

text \<open>Lines 145-153: \<^verbatim>\<open>byte_list[-2:]\<close>, the last two entries.\<close>

definition crc_step :: "string list \<Rightarrow> parsed_data \<Rightarrow> parsed_data option" where
  "crc_step byte_list p =
     (if length byte_list \<ge> 34 then
        (let crc_bytes = drop (length byte_list - 2) byte_list
         in case py_int16 (concat crc_bytes) of
              None \<Rightarrow> None
            | Some v \<Rightarrow>
                Some (p\<lparr>crc_entry :=
                  Some \<lparr>crc_value = ''0x'' @ upper (concat crc_bytes) @ '' ('' @ decimal v @ '')'',
                        crc_hex_format = join_space crc_bytes\<rparr>\<rparr>))
      else Some p)"

text \<open>
  The \<^verbatim>\<open>try\<close> block (lines 41-157): the statements in order; the first that raises ends
  the block, and the handler records the error in the dictionary built so far.
\<close>

fun try_block :: "(parsed_data \<Rightarrow> parsed_data option) list \<Rightarrow> parsed_data \<Rightarrow> parsed_data" where
  "try_block [] p = p"
| "try_block (step # steps) p =
     (case step p of
        None \<Rightarrow> p\<lparr>parse_error := True\<rparr>
      | Some p' \<Rightarrow> try_block steps p')"

definition parse_specific_device_response :: "string \<Rightarrow> parse_outcome" where
  "parse_specific_device_response hex_response =
     (let hex_bytes = strip_separators hex_response;
          byte_list = chunk2 hex_bytes
      in if length byte_list < 32 then InsufficientData
         else
           (case py_int16 (byte_list ! 0) of
              None \<Rightarrow> UncaughtValueError
            | Some device_address \<Rightarrow>
                (case py_int16 (byte_list ! 1) of
                   None \<Rightarrow> UncaughtValueError
                 | Some function_code \<Rightarrow>
                     Parsed (try_block
                       [magic_step byte_list, software_step byte_list, hardware_step byte_list,
                        ver_status_step byte_list, status_step byte_list,
                        io_counts_step byte_list, product_id_step byte_list, crc_step byte_list]
                       \<lparr>header_device_address =
                            decimal device_address @ '' (0x'' @ upper (byte_list ! 0) @ '')'',
                        header_function_code =
                            decimal function_code @ '' (0x'' @ upper (byte_list ! 1) @ '')'',
                        magic = None, software = None, hardware = None, ver_status = None,
                        status = None, io_counts = None, product_id = None,
                        raw_hex = hex_response, byte_count = length byte_list,
                        crc_entry = None, parse_error = False\<rparr>))))"

text \<open>
  The inputs the statements about the decoder are made for: text that, once blanks and
  line ends are removed, consists of hexadecimal digits; and the decoder's own count of
  the bytes of such a payload (\<^verbatim>\<open>len(byte_list)\<close>).
\<close>

definition is_hex :: "string \<Rightarrow> bool" where
  "is_hex s = list_all (\<lambda>c. hex_digit_value c \<noteq> None) s"

definition hex_text :: "string \<Rightarrow> bool" where
  "hex_text hex_response = is_hex (strip_separators hex_response)"

definition payload_length :: "string \<Rightarrow> nat" where
  "payload_length hex_response = length (chunk2 (strip_separators hex_response))"

section \<open>Checksum test vector\<close>

text \<open>
  C1. For the bytes 01 03 00 00 00 0A the checksum has low byte 0xC5 and high byte 0xCD, and
  the read request for device 1, function 0x03, start 0, count 10 is written to the link as
  01 03 00 00 00 0A C5 CD (checksum low byte first).
\<close>

theorem crc16_test_vector:
  "calculate_crc16 [0x01, 0x03, 0x00, 0x00, 0x00, 0x0A] AND 0xFF = 0xC5
   \<and> (drop_bit 8 (calculate_crc16 [0x01, 0x03, 0x00, 0x00, 0x00, 0x0A])) AND 0xFF = 0xCD
   \<and> append_crc [0x01, 0x03, 0x00, 0x00, 0x00, 0x0A]
       = [0x01, 0x03, 0x00, 0x00, 0x00, 0x0A, 0xC5, 0xCD]
   \<and> map_option tx (fst (read_registers_with_function
        (Some \<lparr>is_open = True, write_raises = False, read_raises = False,
               rx = [], tx = [], flushed = 0\<rparr>) 1 0 10 0x03))
       = Some [[0x01, 0x03, 0x00, 0x00, 0x00, 0x0A, 0xC5, 0xCD]]"
  by code_simp

section \<open>Writes with nothing to write\<close>

text \<open>
  C10. \<^verbatim>\<open>write_holding_registers\<close> and \<^verbatim>\<open>write_multiple_coils\<close> called with an empty list of
  values return \<^verbatim>\<open>False\<close> and leave the link as it was: no frame is written and nothing
  is flushed, whatever the state of the connection.
\<close>

theorem empty_write_sends_nothing:
  "fst (write_holding_registers connection device_address start_address []) = connection
   \<and> \<not> write_returns (snd (write_holding_registers connection device_address start_address []))
   \<and> fst (write_multiple_coils connection device_address start_address []) = connection
   \<and> \<not> write_returns (snd (write_multiple_coils connection device_address start_address []))"
  by (simp add: write_holding_registers_def write_multiple_coils_def split: option.split)

section \<open>Health monitor: repeated loss signals\<close>

text \<open>
  C4. The claim asks for exactly one \<^verbatim>\<open>device_disconnected\<close> signal for a run of failures
  that reaches the threshold. When the worker is connected and \<^verbatim>\<open>read_device_info\<close>
  returns nothing four times in a row, the monitor in normal mode (threshold 3) emits the
  signal twice, at the third and at the fourth failure; in fast mode (threshold 2) three
  such failures emit it twice. The branch for a missing worker, which tests
  \<^verbatim>\<open>is_connected\<close> before emitting, emits it once on four failures.
\<close>

theorem monitor_repeats_disconnected:
  "snd (run (monitor_init False) [Silent, Silent, Silent, Silent])
     = [device_disconnected, device_disconnected]
   \<and> snd (run (monitor_init True) [Silent, Silent, Silent])
     = [device_disconnected, device_disconnected]
   \<and> snd (run (monitor_init False) [WorkerDown, WorkerDown, WorkerDown, WorkerDown])
     = [device_disconnected]"
  by (simp add: run_def monitor_init_def)

section \<open>Write responses that carry a Modbus exception\<close>

text \<open>
  C5. The exception answer of a device at address 1 to function 0x10 with exception code 2
  is the five bytes 01 90 02 CD C1: the checksum is valid, the address matches, the
  function byte is 0x90 and the third byte is 0x02. \<^verbatim>\<open>write_holding_registers\<close> takes the
  "response too short" branch on it (fewer than 8 bytes) and never reaches the branch
  that decodes the exception code.
\<close>

theorem exception_frame_is_short_response:
  "response_crc [0x01, 0x90, 0x02, 0xCD, 0xC1] = calculated_crc [0x01, 0x90, 0x02, 0xCD, 0xC1]
   \<and> snd (write_holding_registers
        (Some \<lparr>is_open = True, write_raises = False, read_raises = False,
               rx = [0x01, 0x90, 0x02, 0xCD, 0xC1], tx = [], flushed = 0\<rparr>) 1 6 [5])
       = ShortResponse"
  by code_simp

section \<open>Identity decoding of the example payload\<close>

text \<open>
  C8. On the example payload of the source the decoder returns software version V07.00
  (bytes 8 and 9 are 07 00, read as major and minor in that order), hardware version
  V01.01 and the counts 0/0/32/0 (bytes 20 to 23 are 00 00 20 00, read in the order
  digital in, digital out, analog in, analog out). The comments of the source and the
  claim give V00.07 and 0/32/0/0.
\<close>

theorem example_payload_decoding:
  "(case parse_specific_device_response
      ''0F 11 0F FF 99 87 41 77 07 00 01 01 0F 00 00 00 2F 48 50 4F 00 00 20 00 00 00 00 00 FB 5F 19 63 19 62 B1 B2 EB D7'' of
      Parsed p \<Rightarrow>
        map_option ver_value (software p) = Some ''V07.00''
        \<and> map_option ver_value (hardware p) = Some ''V01.01''
        \<and> map_option io_value (io_counts p) = Some ''0/0/32/0''
        \<and> map_option digital_outputs (io_counts p) = Some 0
        \<and> map_option analog_inputs (io_counts p) = Some 32
    | _ \<Rightarrow> False)"
  by code_simp

section \<open>Register reads and writes: the checks on a response\<close>

subsection \<open>Auxiliary facts\<close>

text \<open>
  The loop over an identification answer collects the big-endian pairs from its start
  index on, at least one and at most as many as are still missing.
\<close>

lemma extract_f11_pairs:
  "extract_f11 count response i registers =
     registers @ take (nat (max 1 (count - int (length registers)))) (be16_pairs (drop i response))"
proof (induction count response i registers rule: extract_f11.induct)
  case (1 count response i registers)
  show ?case
  proof (cases "i < length response")
    case False
    then show ?thesis by (subst extract_f11.simps) simp
  next
    case inside: True
    show ?thesis
    proof (cases "i + 1 < length response")
      case False
      with inside have "drop i response = [response ! i]"
        by (metis Cons_nth_drop_Suc Suc_eq_plus1 drop_all not_less)
      moreover from False have "drop (i + 2) response = []" by simp
      ultimately show ?thesis
        using "1.IH"(2) inside False by (subst extract_f11.simps) simp
    next
      case True
      define v where "v = push_bit 8 (uint (response ! i)) OR uint (response ! (i + 1))"
      from True have split: "drop i response = response ! i # response ! (i + 1) # drop (i + 2) response"
        by (metis Cons_nth_drop_Suc Suc_eq_plus1 Suc_lessD add_2_eq_Suc')
      show ?thesis
      proof (cases "int (length (registers @ [v])) \<ge> count")
        case stop: True
        then have "nat (max 1 (count - int (length registers))) = 1" by simp
        then show ?thesis
          using inside True stop split by (subst extract_f11.simps) (simp add: v_def Let_def)
      next
        case go: False
        then have k: "nat (max 1 (count - int (length registers)))
            = Suc (nat (max 1 (count - int (length (registers @ [v])))))" by simp
        have "extract_f11 count response i registers = extract_f11 count response (i + 2) (registers @ [v])"
          using inside True go by (subst extract_f11.simps) (simp add: v_def Let_def)
        also have "\<dots> = (registers @ [v]) @ take (nat (max 1 (count - int (length (registers @ [v])))))
                           (be16_pairs (drop (i + 2) response))"
          using "1.IH"(1) [OF inside True v_def refl] go by simp
        finally show ?thesis
          unfolding k split by (simp add: v_def)
      qed
    qed
  qed
qed

lemma and_255_in_byte_range: "in_byte_range (x AND 0xFF)"
  unfolding in_byte_range_def
  by (simp add: AND_upper2' order_le_less_trans [of _ 255] )

lemma read_request_built:
  assumes "in_byte_range device_address" "in_byte_range function_code"
  shows "bytearray [device_address, function_code,
                    (drop_bit 8 start_address) AND 0xFF, start_address AND 0xFF,
                    (drop_bit 8 count) AND 0xFF, count AND 0xFF] \<noteq> None"
  using assms by (simp add: bytearray_def and_255_in_byte_range)

lemma read_exchange:
  assumes "is_open c" "\<not> write_raises c" "\<not> read_raises c"
    and "in_byte_range device_address" "in_byte_range function_code"
  shows "snd (read_registers_with_function (Some c) device_address start_address count function_code)
         = decode_read_response device_address function_code count (take 100 (rx c))"
proof -
  obtain request where
    "bytearray [device_address, function_code,
                (drop_bit 8 start_address) AND 0xFF, start_address AND 0xFF,
                (drop_bit 8 count) AND 0xFF, count AND 0xFF] = Some request"
    using read_request_built [OF assms(4,5)] by blast
  then show ?thesis
    using assms(1-3)
    by (simp add: read_registers_with_function_def write_flush_def read100_def Let_def)
qed

lemma uint_byte_in_range: "in_byte_range (uint (b :: byte))"
  unfolding in_byte_range_def using uint_bounded [of b] by simp

lemma decode_f11:
  assumes "function_code = 0x03 \<or> function_code = 0x04"
    and "2 \<le> length response"
    and "response_crc response = calculated_crc response"
    and "uint (response ! 0) = device_address"
    and "uint (response ! 1) = 0x11"
  shows "decode_read_response device_address function_code count response
         = (if be16_pairs (drop 8 response) = [] then None
            else Some (take (nat (max 1 count)) (be16_pairs (drop 8 response))))"
proof (cases "length response < 5")
  case True
  then show ?thesis by (simp add: decode_read_response_def)
next
  case False
  have "extract_f11 count response 8 [] = take (nat (max 1 count)) (be16_pairs (drop 8 response))"
    by (simp add: extract_f11_pairs)
  moreover have "0 < nat (max 1 count)" by simp
  ultimately have "extract_f11 count response 8 [] = [] \<longleftrightarrow> be16_pairs (drop 8 response) = []"
    by (metis take_eq_Nil less_numeral_extra(3))
  with False assms show ?thesis
    by (auto simp: decode_read_response_def extract_f11_pairs Let_def)
qed

lemma check_write_response_ok:
  "write_returns (check_write_response device_address fc start_address count response)
   \<longleftrightarrow> 8 \<le> length response \<and> response_crc response = calculated_crc response
       \<and> uint (response ! 0) = device_address \<and> uint (response ! 1) = fc"
  by (auto simp: check_write_response_def Let_def)

lemma write_exchange_ok:
  "write_returns (snd (write_exchange c request check))
   \<longleftrightarrow> \<not> write_raises c \<and> \<not> read_raises c \<and> write_returns (check (take 100 (rx c)))"
  by (simp add: write_exchange_def write_flush_def read100_def Let_def)

lemma write_exchange_rx:
  "write_returns (snd (write_exchange c request check))
   \<Longrightarrow> rx (fst (write_exchange c request check)) = drop 100 (rx c)"
  by (simp add: write_exchange_def write_flush_def read100_def Let_def split: if_splits)

lemma write_holding_registers_ok:
  assumes "write_returns (snd (write_holding_registers connection device_address start_address values))"
  shows "\<exists>l. connection = Some l \<and> is_open l
           \<and> 8 \<le> length (take 100 (rx l))
           \<and> response_crc (take 100 (rx l)) = calculated_crc (take 100 (rx l))
           \<and> uint (take 100 (rx l) ! 0) = device_address
           \<and> uint (take 100 (rx l) ! 1) = 0x10
           \<and> map_option rx (fst (write_holding_registers connection device_address start_address values))
               = Some (drop 100 (rx l))"
proof (cases connection)
  case None
  with assms show ?thesis by (simp add: write_holding_registers_def)
next
  case (Some l)
  show ?thesis
  proof (cases "bytearray [device_address, 0x10,
                           (drop_bit 8 start_address) AND 0xFF, start_address AND 0xFF,
                           (drop_bit 8 (int (length values))) AND 0xFF, int (length values) AND 0xFF,
                           int (length values) * 2]")
    case None
    with assms Some show ?thesis
      by (simp add: write_holding_registers_def Let_def split: if_splits)
  next
    case (Some header)
    let ?x = "write_exchange l (header @ register_bytes values)
                (check_write_response device_address 0x10 start_address (int (length values)))"
    from assms \<open>connection = Some l\<close> Some
    have run: "is_open l" "values \<noteq> []" "write_returns (snd ?x)"
      and res: "fst (write_holding_registers connection device_address start_address values) = Some (fst ?x)"
      by (auto simp: write_holding_registers_def Let_def split: if_splits prod.splits)
    from run(3) have "write_returns (check_write_response device_address 0x10 start_address
                        (int (length values)) (take 100 (rx l)))"
      by (simp add: write_exchange_ok)
    moreover have "rx (fst ?x) = drop 100 (rx l)"
      by (rule write_exchange_rx [OF run(3)])
    ultimately show ?thesis
      using \<open>connection = Some l\<close> run(1) res by (simp add: check_write_response_ok)
  qed
qed


text \<open>A response of fewer than five bytes: the read returns \<^verbatim>\<open>None\<close> on every path.\<close>

lemma short_read:
  "length (take 100 (rx s)) < 5
   \<Longrightarrow> snd (read_registers_with_function (Some s) device_address start_address count function_code) = None"
  by (auto simp: read_registers_with_function_def decode_read_response_def read100_def
        write_flush_def Let_def split: option.splits)

subsection \<open>Checksum failures\<close>

text \<open>
  C6, as amended. The claim says that every read response with a failing checksum gives
  the empty list; a response of fewer than five bytes is rejected before the checksum is
  looked at, and the read returns \<^verbatim>\<open>None\<close> (see the counterexample below). What holds:
  \<^item> a read (over an open link that raises nothing, with address and function code in
    byte range) whose response has at least five bytes and a failing checksum returns
    the empty list;
  \<^item> a read whose response has fewer than five bytes returns \<^verbatim>\<open>None\<close>, whatever its
    checksum bytes are;
  \<^item> a write whose response fails the checksum returns \<^verbatim>\<open>False\<close>;
  \<^item> a write returns \<^verbatim>\<open>True\<close> only after it has read, from an open link, a response of
    at least eight bytes with a valid checksum, the address of the device and function
    code 0x10.
\<close>

theorem crc_failure_results:
  "(is_open c \<and> \<not> write_raises c \<and> \<not> read_raises c
      \<and> in_byte_range device_address \<and> in_byte_range function_code
      \<and> 5 \<le> length (take 100 (rx c))
      \<and> response_crc (take 100 (rx c)) \<noteq> calculated_crc (take 100 (rx c))
    \<longrightarrow> snd (read_registers_with_function (Some c) device_address start_address count function_code)
          = Some [])
   \<and> (response_crc (take 100 (rx w)) \<noteq> calculated_crc (take 100 (rx w))
    \<longrightarrow> \<not> write_returns (snd (write_holding_registers (Some w) device_address start_address register_values)))
   \<and> (write_returns (snd (write_holding_registers connection device_address start_address register_values))
    \<longrightarrow> (\<exists>l. connection = Some l \<and> is_open l
           \<and> 8 \<le> length (take 100 (rx l))
           \<and> response_crc (take 100 (rx l)) = calculated_crc (take 100 (rx l))
           \<and> uint (take 100 (rx l) ! 0) = device_address
           \<and> uint (take 100 (rx l) ! 1) = 0x10
           \<and> map_option rx (fst (write_holding_registers connection device_address start_address register_values))
               = Some (drop 100 (rx l))))
   \<and> (length (take 100 (rx s)) < 5
    \<longrightarrow> snd (read_registers_with_function (Some s) device_address start_address count function_code)
          = None)"
proof (intro conjI impI)
  assume a: "is_open c \<and> \<not> write_raises c \<and> \<not> read_raises c
      \<and> in_byte_range device_address \<and> in_byte_range function_code
      \<and> 5 \<le> length (take 100 (rx c))
      \<and> response_crc (take 100 (rx c)) \<noteq> calculated_crc (take 100 (rx c))"
  then have "snd (read_registers_with_function (Some c) device_address start_address count function_code)
             = decode_read_response device_address function_code count (take 100 (rx c))"
    by (simp add: read_exchange)
  also from a have "\<dots> = Some []"
    by (auto simp: decode_read_response_def)
  finally show "snd (read_registers_with_function (Some c) device_address start_address count function_code)
                = Some []" .
next
  assume bad: "response_crc (take 100 (rx w)) \<noteq> calculated_crc (take 100 (rx w))"
  show "\<not> write_returns (snd (write_holding_registers (Some w) device_address start_address register_values))"
  proof
    assume "write_returns (snd (write_holding_registers (Some w) device_address start_address register_values))"
    from write_holding_registers_ok [OF this] bad show False by auto
  qed
next
  assume "write_returns (snd (write_holding_registers connection device_address start_address register_values))"
  then show "\<exists>l. connection = Some l \<and> is_open l
           \<and> 8 \<le> length (take 100 (rx l))
           \<and> response_crc (take 100 (rx l)) = calculated_crc (take 100 (rx l))
           \<and> uint (take 100 (rx l) ! 0) = device_address
           \<and> uint (take 100 (rx l) ! 1) = 0x10
           \<and> map_option rx (fst (write_holding_registers connection device_address start_address register_values))
               = Some (drop 100 (rx l))"
    by (rule write_holding_registers_ok)
next
  assume "length (take 100 (rx s)) < 5"
  then show "snd (read_registers_with_function (Some s) device_address start_address count function_code)
             = None"
    by (rule short_read)
qed


text \<open>
  The parts at concrete exchanges: a seven-byte read response and an eight-byte write
  response with wrong checksums, the well-formed write response 01 10 00 06 00 01 E1 C8,
  and the three-byte read response 01 03 00.
\<close>

theorem crc_failure_results_witness:
  "snd (read_registers_with_function
          (Some (open_link [0x01, 0x03, 0x02, 0x00, 0x05, 0x00, 0x00])) 1 6 1 0x03) = Some []
   \<and> \<not> write_returns (snd (write_holding_registers
          (Some (open_link [0x01, 0x10, 0x00, 0x06, 0x00, 0x01, 0x00, 0x00])) 1 6 [5]))
   \<and> write_returns (snd (write_holding_registers
          (Some (open_link [0x01, 0x10, 0x00, 0x06, 0x00, 0x01, 0xE1, 0xC8])) 1 6 [5]))
   \<and> (\<exists>l. Some (open_link [0x01, 0x10, 0x00, 0x06, 0x00, 0x01, 0xE1, 0xC8]) = Some l \<and> is_open l
           \<and> 8 \<le> length (take 100 (rx l))
           \<and> response_crc (take 100 (rx l)) = calculated_crc (take 100 (rx l))
           \<and> uint (take 100 (rx l) ! 0) = 1
           \<and> uint (take 100 (rx l) ! 1) = 0x10
           \<and> map_option rx (fst (write_holding_registers
                (Some (open_link [0x01, 0x10, 0x00, 0x06, 0x00, 0x01, 0xE1, 0xC8])) 1 6 [5]))
               = Some (drop 100 (rx l)))
   \<and> snd (read_registers_with_function (Some (open_link [0x01, 0x03, 0x00])) 1 6 1 0x03) = None"
proof -
  let ?c = "open_link [0x01, 0x03, 0x02, 0x00, 0x05, 0x00, 0x00]"
  let ?s = "open_link [0x01, 0x03, 0x00]"
  let ?w = "open_link [0x01, 0x10, 0x00, 0x06, 0x00, 0x01, 0x00, 0x00]"
  let ?l = "open_link [0x01, 0x10, 0x00, 0x06, 0x00, 0x01, 0xE1, 0xC8]"
  have a: "is_open ?c \<and> \<not> write_raises ?c \<and> \<not> read_raises ?c
      \<and> in_byte_range 1 \<and> in_byte_range 0x03
      \<and> 5 \<le> length (take 100 (rx ?c))
      \<and> response_crc (take 100 (rx ?c)) \<noteq> calculated_crc (take 100 (rx ?c))"
    by code_simp
  have b: "response_crc (take 100 (rx ?w)) \<noteq> calculated_crc (take 100 (rx ?w))"
    by code_simp
  have c: "write_returns (snd (write_holding_registers (Some ?l) 1 6 [5]))"
    by code_simp
  have d: "length (take 100 (rx ?s)) < 5"
    by code_simp
  show ?thesis
    using crc_failure_results [where c = "?c" and w = "?w" and connection = "Some ?l"
        and s = "?s" and device_address = 1 and function_code = 3 and start_address = 6
        and count = 1 and register_values = "[5]"] a b c d
    by blast
qed


text \<open>
  The claim as stated fails on the three-byte response 01 03 00: its last two bytes are
  not the checksum of the rest, and the read returns \<^verbatim>\<open>None\<close>, not the empty list.
\<close>

theorem short_read_response_counterexample:
  "response_crc [0x01, 0x03, 0x00] \<noteq> calculated_crc [0x01, 0x03, 0x00]
   \<and> snd (read_registers_with_function (Some (open_link [0x01, 0x03, 0x00])) 1 0 1 0x03) = None"
  by code_simp


subsection \<open>An identification answer to a register read\<close>

text \<open>
  C7. A register read with function code 0x03 or 0x04 that receives a response with a
  valid checksum, the address of the device and function byte 0x11 returns the
  big-endian 16-bit pairs of the response from byte offset 8 on, stopping once the
  requested count is reached (the first pair is always taken, the count is compared after
  it); when there is no pair, the read returns \<^verbatim>\<open>None\<close>.
\<close>

theorem f11_answer_registers:
  assumes "is_open c" "\<not> write_raises c" "\<not> read_raises c"
    and "function_code = 0x03 \<or> function_code = 0x04"
    and "response = take 100 (rx c)"
    and "2 \<le> length response"
    and "response_crc response = calculated_crc response"
    and "uint (response ! 0) = device_address"
    and "uint (response ! 1) = 0x11"
  shows "snd (read_registers_with_function (Some c) device_address start_address count function_code)
         = (if be16_pairs (drop 8 response) = [] then None
            else Some (take (nat (max 1 count)) (be16_pairs (drop 8 response))))"
proof -
  from assms(8) have "in_byte_range device_address"
    using uint_byte_in_range by blast
  moreover from assms(4) have "in_byte_range function_code"
    by (auto simp: in_byte_range_def)
  ultimately have "snd (read_registers_with_function (Some c) device_address start_address count function_code)
      = decode_read_response device_address function_code count response"
    using assms(1-3,5) by (simp add: read_exchange)
  then show ?thesis
    using decode_f11 [OF assms(4,6-9)] by simp
qed


theorem f11_answer_registers_witness:
  "snd (read_registers_with_function
          (Some (open_link [0x01, 0x11, 0, 0, 0, 0, 0, 0, 0x12, 0x34, 0x56, 0x78, 0x9A, 0xC9, 0x1E]))
          1 0 2 0x03)
   = Some [0x1234, 0x5678]"
proof -
  let ?c = "open_link [0x01, 0x11, 0, 0, 0, 0, 0, 0, 0x12, 0x34, 0x56, 0x78, 0x9A, 0xC9, 0x1E]"
  let ?r = "take 100 (rx ?c)"
  have h: "is_open ?c" "\<not> write_raises ?c" "\<not> read_raises ?c"
    "(3::int) = 0x03 \<or> (3::int) = 0x04" "?r = take 100 (rx ?c)" "2 \<le> length ?r"
    "response_crc ?r = calculated_crc ?r" "uint (?r ! 0) = 1" "uint (?r ! 1) = 0x11"
    by code_simp+
  have v: "(if be16_pairs (drop 8 ?r) = [] then None
            else Some (take (nat (max 1 2)) (be16_pairs (drop 8 ?r)))) = Some [0x1234, 0x5678]"
    by code_simp
  show ?thesis
    using f11_answer_registers [OF h, of 0 2] v by simp
qed

section \<open>Discovery scan: order of the probes and cancellation\<close>

subsection \<open>The nested loops as one pass over the search space\<close>

lemma probe_run_append:
  "probe_run env stop (xs @ ys) log =
     (if snd (probe_run env stop xs log) = Exhausted
      then probe_run env stop ys (fst (probe_run env stop xs log))
      else probe_run env stop xs log)"
  by (induction xs arbitrary: log) auto

lemma baudrate_loop_probe_run:
  "probes (fst (baudrate_loop env stop a bs s)) = fst (probe_run env stop (map (Pair a) bs) (probes s))
   \<and> snd (baudrate_loop env stop a bs s)
       = (if snd (probe_run env stop (map (Pair a) bs) (probes s)) = Exhausted then None
          else Some (snd (probe_run env stop (map (Pair a) bs) (probes s))))"
  by (induction bs arbitrary: s) (auto simp: Let_def)

lemma address_loop_probe_run:
  "probes (fst (address_loop env stop as s))
     = fst (probe_run env stop (concat (map (\<lambda>a. map (Pair a) SEARCH_BAUDRATES) as)) (probes s))
   \<and> snd (address_loop env stop as s)
     = snd (probe_run env stop (concat (map (\<lambda>a. map (Pair a) SEARCH_BAUDRATES) as)) (probes s))"
proof (induction as arbitrary: s)
  case Nil
  show ?case by simp
next
  case (Cons a as)
  let ?row = "map (Pair a) SEARCH_BAUDRATES"
  let ?rest = "concat (map (\<lambda>a. map (Pair a) SEARCH_BAUDRATES) as)"
  show ?case
  proof (cases "stop (length (probes s))")
    case True
    have "?row = (a, 115200) # map (Pair a) [57600, 38400, 19200, 9600]"
      by (simp add: SEARCH_BAUDRATES_def)
    with True show ?thesis by simp
  next
    case False
    let ?s1 = "s\<lparr>progress := progress s @ [a]\<rparr>"
    obtain s2 r where bl: "baudrate_loop env stop a SEARCH_BAUDRATES ?s1 = (s2, r)"
      by (cases "baudrate_loop env stop a SEARCH_BAUDRATES ?s1")
    from baudrate_loop_probe_run [of env stop a SEARCH_BAUDRATES ?s1] bl
    have p2: "probes s2 = fst (probe_run env stop ?row (probes s))"
      and r: "r = (if snd (probe_run env stop ?row (probes s)) = Exhausted then None
                   else Some (snd (probe_run env stop ?row (probes s))))"
      by simp_all
    show ?thesis
    proof (cases "snd (probe_run env stop ?row (probes s)) = Exhausted")
      case True
      with r have "r = None" by simp
      with False bl have "address_loop env stop (a # as) s = address_loop env stop as s2"
        by simp
      with Cons.IH [of s2] p2 True show ?thesis
        by (simp add: probe_run_append)
    next
      case nx: False
      with r have "r = Some (snd (probe_run env stop ?row (probes s)))" by simp
      with False bl have "address_loop env stop (a # as) s = (s2, snd (probe_run env stop ?row (probes s)))"
        by simp
      with p2 nx show ?thesis
        by (simp add: probe_run_append)
    qed
  qed
qed

lemma search_space_rows:
  "search_space = concat (map (\<lambda>a. map (Pair a) SEARCH_BAUDRATES) [MIN_ADDRESS..MAX_ADDRESS])"
  unfolding search_space_def SEARCH_BAUDRATES_def MIN_ADDRESS_def MAX_ADDRESS_def
  by (rule refl)

lemma sequential_search_probe_run:
  "probes (fst (sequential_search env stop)) = fst (probe_run env stop search_space [])"
  "snd (sequential_search env stop) = snd (probe_run env stop search_space [])"
  using address_loop_probe_run [of env stop "[MIN_ADDRESS..MAX_ADDRESS]" "\<lparr>probes = [], progress = []\<rparr>"]
  unfolding sequential_search_def search_space_rows by simp_all

lemma probe_run_no_stop:
  "probe_run env (\<lambda>n. False) ps log =
     (case find env ps of
        None \<Rightarrow> (log @ ps, Exhausted)
      | Some p \<Rightarrow> (log @ takeWhile (\<lambda>q. \<not> env q) ps @ [p], Found (fst p) (snd p)))"
  by (induction ps arbitrary: log) (auto split: option.splits)

lemma quick_baudrate_loop_find:
  "quick_baudrate_loop env a bs log =
     (case find env (map (Pair a) bs) of
        None \<Rightarrow> (log @ map (Pair a) bs, None)
      | Some p \<Rightarrow> (log @ takeWhile (\<lambda>q. \<not> env q) (map (Pair a) bs) @ [p], Some p))"
  by (induction bs arbitrary: log) (auto split: option.splits)

lemma find_append:
  "find P (xs @ ys) = (case find P xs of None \<Rightarrow> find P ys | Some x \<Rightarrow> Some x)"
  by (induction xs) auto

lemma find_None_takeWhile: "find P xs = None \<Longrightarrow> takeWhile (\<lambda>q. \<not> P q) xs = xs"
  by (induction xs) (auto split: if_splits)

lemma find_Some_takeWhile:
  "find P xs = Some x \<Longrightarrow> takeWhile (\<lambda>q. \<not> P q) (xs @ ys) = takeWhile (\<lambda>q. \<not> P q) xs"
  by (induction xs) (auto split: if_splits)

lemma find_None_takeWhile_append:
  "find P xs = None \<Longrightarrow> takeWhile (\<lambda>q. \<not> P q) (xs @ ys) = xs @ takeWhile (\<lambda>q. \<not> P q) ys"
  by (induction xs) (auto split: if_splits)

lemma quick_address_loop_find:
  assumes bs: "bs = [115200, 57600, 38400, 19200, 9600]"
  shows "quick_address_loop env as log =
     (case find env (concat (map (\<lambda>a. map (Pair a) bs) as)) of
        None \<Rightarrow> (log @ concat (map (\<lambda>a. map (Pair a) bs) as), None)
      | Some p \<Rightarrow>
          (log @ takeWhile (\<lambda>q. \<not> env q) (concat (map (\<lambda>a. map (Pair a) bs) as)) @ [p], Some p))"
proof (induction as arbitrary: log)
  case Nil
  show ?case by simp
next
  case (Cons a as)
  let ?row = "map (Pair a) bs"
  let ?rest = "concat (map (\<lambda>a. map (Pair a) bs) as)"
  have step: "quick_address_loop env (a # as) log =
      (case quick_baudrate_loop env a bs log of
         (log1, Some found) \<Rightarrow> (log1, Some found)
       | (log1, None) \<Rightarrow> quick_address_loop env as log1)"
    unfolding bs by simp
  have cc: "concat (map (\<lambda>a. map (Pair a) bs) (a # as)) = ?row @ ?rest"
    by simp
  show ?case
  proof (cases "find env ?row")
    case None
    then have "quick_baudrate_loop env a bs log = (log @ ?row, None)"
      by (simp add: quick_baudrate_loop_find)
    with step have "quick_address_loop env (a # as) log = quick_address_loop env as (log @ ?row)"
      by simp
    also have "\<dots> = (case find env ?rest of
        None \<Rightarrow> ((log @ ?row) @ ?rest, None)
      | Some p \<Rightarrow> ((log @ ?row) @ takeWhile (\<lambda>q. \<not> env q) ?rest @ [p], Some p))"
      by (rule Cons.IH)
    finally show ?thesis
      unfolding cc find_append None find_None_takeWhile_append [OF None]
      by (simp split: option.splits)
  next
    case (Some p)
    then have "quick_baudrate_loop env a bs log = (log @ takeWhile (\<lambda>q. \<not> env q) ?row @ [p], Some p)"
      by (simp add: quick_baudrate_loop_find)
    with step have "quick_address_loop env (a # as) log = (log @ takeWhile (\<lambda>q. \<not> env q) ?row @ [p], Some p)"
      by simp
    then show ?thesis
      unfolding cc find_append Some find_Some_takeWhile [OF Some]
      by simp
  qed
qed

lemma quick_auto_search_find:
  "quick_auto_search env =
     (case find env search_space of
        None \<Rightarrow> (search_space, None)
      | Some p \<Rightarrow> (takeWhile (\<lambda>q. \<not> env q) search_space @ [p], Some p))"
proof -
  have ss: "concat (map (\<lambda>a. map (Pair a) [115200, 57600, 38400, 19200, 9600]) [1..200]) = search_space"
    unfolding search_space_def by (rule refl)
  show ?thesis
    unfolding quick_auto_search_def quick_address_loop_find [OF refl] ss append_Nil
    by (rule refl)
qed

lemma probe_run_bound:
  "stop (length log + k) \<Longrightarrow> length (fst (probe_run env stop ps log)) \<le> length log + k"
proof (induction ps arbitrary: log k)
  case Nil
  show ?case by simp
next
  case (Cons p ps)
  show ?case
  proof (cases "stop (length log)")
    case True
    then show ?thesis by simp
  next
    case False
    with Cons.prems have "k \<noteq> 0" by (cases k) auto
    then obtain k' where k: "k = Suc k'" by (cases k) auto
    with Cons.prems have "stop (length (log @ [p]) + k')" by simp
    from Cons.IH [OF this] False k show ?thesis by simp
  qed
qed

lemma probe_run_prefix:
  "\<exists>n \<le> length ps. fst (probe_run env stop ps log) = log @ take n ps"
proof (induction ps arbitrary: log)
  case Nil
  show ?case by simp
next
  case (Cons p ps)
  show ?case
  proof (cases "stop (length log)")
    case True
    then have "fst (probe_run env stop (p # ps) log) = log @ take 0 (p # ps)" by simp
    then show ?thesis by blast
  next
    case False
    show ?thesis
    proof (cases "env p")
      case True
      with False have "fst (probe_run env stop (p # ps) log) = log @ take 1 (p # ps)" by simp
      moreover have "1 \<le> length (p # ps)" by simp
      ultimately show ?thesis by blast
    next
      case nohit: False
      from Cons.IH [of "log @ [p]"] obtain n where
        n: "n \<le> length ps" "fst (probe_run env stop ps (log @ [p])) = (log @ [p]) @ take n ps"
        by blast
      with False nohit have "fst (probe_run env stop (p # ps) log) = log @ take (Suc n) (p # ps)"
        by simp
      moreover from n(1) have "Suc n \<le> length (p # ps)" by simp
      ultimately show ?thesis by blast
    qed
  qed
qed

lemma probe_run_cancelled:
  "k < length ps \<Longrightarrow> stop (length log + k) \<Longrightarrow> (\<forall>j<k. \<not> stop (length log + j))
   \<Longrightarrow> (\<forall>p \<in> set (take k ps). \<not> env p)
   \<Longrightarrow> probe_run env stop ps log = (log @ take k ps, Cancelled)"
proof (induction ps arbitrary: log k)
  case Nil
  then show ?case by simp
next
  case (Cons p ps)
  show ?case
  proof (cases k)
    case 0
    with Cons.prems show ?thesis by simp
  next
    case (Suc k')
    with Cons.prems have ns: "\<not> stop (length log)" and ne: "\<not> env p"
      by auto
    have "probe_run env stop ps (log @ [p]) = ((log @ [p]) @ take k' ps, Cancelled)"
    proof (rule Cons.IH)
      from Cons.prems Suc show "k' < length ps" by simp
      from Cons.prems Suc show "stop (length (log @ [p]) + k')" by simp
      from Cons.prems(3) Suc show "\<forall>j<k'. \<not> stop (length (log @ [p]) + j)"
        by (metis Suc_less_eq add_Suc_right add_Suc_shift length_append_singleton)
      from Cons.prems(4) Suc show "\<forall>p\<in>set (take k' ps). \<not> env p" by simp
    qed
    with ns ne Suc show ?thesis by simp
  qed
qed

lemma length_search_space: "length search_space = 1000"
  by code_simp

subsection \<open>Order of the probes\<close>

text \<open>
  C2. For every probe environment, when no stop is requested, \<^verbatim>\<open>_sequential_search\<close> and
  \<^verbatim>\<open>quick_auto_search\<close> issue their probes in the order of \<open>search_space\<close>: address 1 at
  115200, 57600, 38400, 19200, 9600, then address 2 at the same speeds, up to address 200
  (1000 pairs). They stop at the first pair that succeeds, having probed exactly the pairs
  before it and that pair, and report it; when no pair succeeds they report "not found"
  after having probed the whole search space.
\<close>

theorem scan_order_and_first_success:
  "probes (fst (sequential_search env (\<lambda>n. False)))
     = (case find env search_space of
          None \<Rightarrow> search_space
        | Some p \<Rightarrow> takeWhile (\<lambda>q. \<not> env q) search_space @ [p])
   \<and> snd (sequential_search env (\<lambda>n. False))
     = (case find env search_space of
          None \<Rightarrow> Exhausted
        | Some p \<Rightarrow> Found (fst p) (snd p))
   \<and> quick_auto_search env
     = (case find env search_space of
          None \<Rightarrow> (search_space, None)
        | Some p \<Rightarrow> (takeWhile (\<lambda>q. \<not> env q) search_space @ [p], Some p))
   \<and> length search_space = 1000
   \<and> take 6 search_space
     = [(1, 115200), (1, 57600), (1, 38400), (1, 19200), (1, 9600), (2, 115200)]"
proof -
  have "probes (fst (sequential_search env (\<lambda>n. False)))
     = (case find env search_space of
          None \<Rightarrow> search_space
        | Some p \<Rightarrow> takeWhile (\<lambda>q. \<not> env q) search_space @ [p])"
    unfolding sequential_search_probe_run probe_run_no_stop
    by (simp split: option.splits)
  moreover have "snd (sequential_search env (\<lambda>n. False))
     = (case find env search_space of
          None \<Rightarrow> Exhausted
        | Some p \<Rightarrow> Found (fst p) (snd p))"
    unfolding sequential_search_probe_run probe_run_no_stop
    by (simp split: option.splits)
  moreover have "take 6 search_space
     = [(1, 115200), (1, 57600), (1, 38400), (1, 19200), (1, 9600), (2, 115200)]"
    by code_simp
  ultimately show ?thesis
    using quick_auto_search_find [of env] length_search_space by blast
qed


subsection \<open>Cancellation\<close>

text \<open>
  \<open>stop n\<close> is the value of \<^verbatim>\<open>should_stop\<close> that the scan reads once \<open>n\<close> probes have been
  issued. A scan that finds the flag unset and whose next probe is the first to succeed
  ends with the "found" report; one that finds the flag unset before each of its probes,
  none of which succeeds, ends with "not found".
\<close>

lemma probe_run_found:
  "m < length ps \<Longrightarrow> (\<forall>j\<le>m. \<not> stop (length log + j))
   \<Longrightarrow> (\<forall>p \<in> set (take m ps). \<not> env p) \<Longrightarrow> env (ps ! m)
   \<Longrightarrow> probe_run env stop ps log
       = (log @ take (Suc m) ps, Found (fst (ps ! m)) (snd (ps ! m)))"
proof (induction ps arbitrary: log m)
  case Nil
  then show ?case by simp
next
  case (Cons p ps)
  from Cons.prems(2) have ns: "\<not> stop (length log)"
    by (metis add.right_neutral le0)
  show ?case
  proof (cases m)
    case 0
    with Cons.prems ns show ?thesis by simp
  next
    case (Suc m')
    with Cons.prems have ne: "\<not> env p" by simp
    have "probe_run env stop ps (log @ [p])
        = ((log @ [p]) @ take (Suc m') ps, Found (fst (ps ! m')) (snd (ps ! m')))"
    proof (rule Cons.IH)
      from Cons.prems Suc show "m' < length ps" by simp
      show "\<forall>j\<le>m'. \<not> stop (length (log @ [p]) + j)"
      proof (intro allI impI)
        fix j assume "j \<le> m'"
        with Suc have "Suc j \<le> m" by simp
        with Cons.prems(2) have "\<not> stop (length log + Suc j)" by blast
        then show "\<not> stop (length (log @ [p]) + j)" by simp
      qed
      from Cons.prems(3) Suc show "\<forall>p\<in>set (take m' ps). \<not> env p" by simp
      from Cons.prems(4) Suc show "env (ps ! m')" by simp
    qed
    with ns ne Suc show ?thesis by simp
  qed
qed

lemma probe_run_exhausted:
  "(\<forall>j<length ps. \<not> stop (length log + j)) \<Longrightarrow> (\<forall>p \<in> set ps. \<not> env p)
   \<Longrightarrow> probe_run env stop ps log = (log @ ps, Exhausted)"
proof (induction ps arbitrary: log)
  case Nil
  show ?case by simp
next
  case (Cons p ps)
  from Cons.prems(1) have ns: "\<not> stop (length log)"
    by (metis add.right_neutral length_greater_0_conv list.distinct(1))
  from Cons.prems(2) have ne: "\<not> env p" by simp
  have "probe_run env stop ps (log @ [p]) = ((log @ [p]) @ ps, Exhausted)"
  proof (rule Cons.IH)
    show "\<forall>j<length ps. \<not> stop (length (log @ [p]) + j)"
    proof (intro allI impI)
      fix j assume "j < length ps"
      then have "Suc j < length (p # ps)" by simp
      with Cons.prems(1) have "\<not> stop (length log + Suc j)" by blast
      then show "\<not> stop (length (log @ [p]) + j)" by simp
    qed
    from Cons.prems(2) show "\<forall>p\<in>set ps. \<not> env p" by simp
  qed
  with ns ne show ?case by simp
qed


text \<open>
  C3, as amended. The claim says that once the flag is set the scan ends with the
  cancellation report; the flag is read only before a probe, so a stop requested while a
  probe is in flight has no effect when that probe succeeds (the scan reports the device
  found) or when it was the last of the 1000 pairs (the scan reports "not found"); see
  the counterexample below. What holds, for every environment:
  \<^item> if the flag is set once \<open>k\<close> probes have been issued, the scan never issues more than
    \<open>k\<close> probes: the flag is tested before every single probe, also between the speeds
    of one address, and no further pair is probed once it is set;
  \<^item> if moreover the flag was unset before, fewer than all 1000 pairs have been probed
    and none of the first \<open>k\<close> probes succeeded, the scan has probed exactly the first
    \<open>k\<close> pairs and ends with the cancellation report;
  \<^item> the probes issued are always an initial part of the search space;
  \<^item> if the flag is unset before each of the first \<open>m + 1\<close> probes and the probe of pair
    \<open>m\<close> is the first to succeed, the scan ends with the "found" report for that pair
    after \<open>m + 1\<close> probes, whatever the flag is afterwards;
  \<^item> if the flag is unset before each of the 1000 probes and none succeeds, the scan
    ends with "not found" after probing the whole space.
\<close>

theorem stop_flag_tested_before_every_probe:
  "(stop k \<longrightarrow> length (probes (fst (sequential_search env stop))) \<le> k)
   \<and> (k < length search_space \<and> stop k \<and> (\<forall>j<k. \<not> stop j)
        \<and> (\<forall>p \<in> set (take k search_space). \<not> env p)
      \<longrightarrow> probes (fst (sequential_search env stop)) = take k search_space
          \<and> snd (sequential_search env stop) = Cancelled)
   \<and> (\<exists>n \<le> length search_space. probes (fst (sequential_search env stop)) = take n search_space)
   \<and> (m < length search_space \<and> (\<forall>j\<le>m. \<not> stop_f j)
        \<and> (\<forall>p \<in> set (take m search_space). \<not> env_f p) \<and> env_f (search_space ! m)
      \<longrightarrow> probes (fst (sequential_search env_f stop_f)) = take (Suc m) search_space
          \<and> snd (sequential_search env_f stop_f)
              = Found (fst (search_space ! m)) (snd (search_space ! m)))
   \<and> ((\<forall>j<length search_space. \<not> stop_x j) \<and> (\<forall>p \<in> set search_space. \<not> env_x p)
      \<longrightarrow> probes (fst (sequential_search env_x stop_x)) = search_space
          \<and> snd (sequential_search env_x stop_x) = Exhausted)"
proof (intro conjI impI)
  assume "stop k"
  then have "length (fst (probe_run env stop search_space [])) \<le> length ([] :: (int \<times> int) list) + k"
    by (intro probe_run_bound) simp
  then show "length (probes (fst (sequential_search env stop))) \<le> k"
    by (simp add: sequential_search_probe_run)
next
  assume h: "k < length search_space \<and> stop k \<and> (\<forall>j<k. \<not> stop j)
        \<and> (\<forall>p \<in> set (take k search_space). \<not> env p)"
  then have "probe_run env stop search_space [] = ([] @ take k search_space, Cancelled)"
    by (intro probe_run_cancelled) simp_all
  then show "probes (fst (sequential_search env stop)) = take k search_space"
    and "snd (sequential_search env stop) = Cancelled"
    by (simp_all add: sequential_search_probe_run)
next
  from probe_run_prefix [of search_space env stop "[]"]
  show "\<exists>n \<le> length search_space. probes (fst (sequential_search env stop)) = take n search_space"
    by (simp add: sequential_search_probe_run)
next
  assume h: "m < length search_space \<and> (\<forall>j\<le>m. \<not> stop_f j)
        \<and> (\<forall>p \<in> set (take m search_space). \<not> env_f p) \<and> env_f (search_space ! m)"
  then have "probe_run env_f stop_f search_space []
      = ([] @ take (Suc m) search_space, Found (fst (search_space ! m)) (snd (search_space ! m)))"
    by (intro probe_run_found) simp_all
  then show "probes (fst (sequential_search env_f stop_f)) = take (Suc m) search_space"
    and "snd (sequential_search env_f stop_f)
          = Found (fst (search_space ! m)) (snd (search_space ! m))"
    by (simp_all add: sequential_search_probe_run)
next
  assume h: "(\<forall>j<length search_space. \<not> stop_x j) \<and> (\<forall>p \<in> set search_space. \<not> env_x p)"
  then have "probe_run env_x stop_x search_space [] = ([] @ search_space, Exhausted)"
    by (intro probe_run_exhausted) simp_all
  then show "probes (fst (sequential_search env_x stop_x)) = search_space"
    and "snd (sequential_search env_x stop_x) = Exhausted"
    by (simp_all add: sequential_search_probe_run)
qed


text \<open>
  A stop requested after two probes, between two speeds of address 1, with a device that
  never answers; a stop requested during the first probe, which succeeds; a stop
  requested during the last probe, with a device that never answers.
\<close>

theorem stop_flag_tested_before_every_probe_witness:
  "length (probes (fst (sequential_search (\<lambda>p. False) (\<lambda>n. 2 \<le> n)))) \<le> 2
   \<and> probes (fst (sequential_search (\<lambda>p. False) (\<lambda>n. 2 \<le> n))) = [(1, 115200), (1, 57600)]
   \<and> snd (sequential_search (\<lambda>p. False) (\<lambda>n. 2 \<le> n)) = Cancelled
   \<and> probes (fst (sequential_search (\<lambda>p. p = (1, 115200)) (\<lambda>n. 1 \<le> n))) = [(1, 115200)]
   \<and> snd (sequential_search (\<lambda>p. p = (1, 115200)) (\<lambda>n. 1 \<le> n)) = Found 1 115200
   \<and> probes (fst (sequential_search (\<lambda>p. False) (\<lambda>n. 1000 \<le> n))) = search_space
   \<and> snd (sequential_search (\<lambda>p. False) (\<lambda>n. 1000 \<le> n)) = Exhausted"
proof -
  have t: "take 2 search_space = [(1, 115200), (1, 57600)]"
    "take (Suc 0) search_space = [(1, 115200)]" "search_space ! 0 = (1, 115200)"
    by code_simp+
  have h: "(2::nat) < length search_space \<and> (2::nat) \<le> 2 \<and> (\<forall>j<2. \<not> (2::nat) \<le> j)
        \<and> (\<forall>p \<in> set (take 2 search_space). \<not> False)"
    by (simp add: length_search_space)
  have f: "(0::nat) < length search_space \<and> (\<forall>j\<le>0. \<not> (1::nat) \<le> j)
        \<and> (\<forall>p \<in> set (take 0 search_space). \<not> p = (1, 115200))
        \<and> search_space ! 0 = (1, 115200)"
    by (simp add: length_search_space t(3))
  have x: "(\<forall>j<length search_space. \<not> (1000::nat) \<le> j) \<and> (\<forall>p \<in> set search_space. \<not> False)"
    by (simp add: length_search_space)
  show ?thesis
    using stop_flag_tested_before_every_probe
            [where stop = "\<lambda>n. 2 \<le> n" and env = "\<lambda>p. False" and k = 2
               and stop_f = "\<lambda>n. 1 \<le> n" and env_f = "\<lambda>p. p = (1, 115200)" and m = 0
               and stop_x = "\<lambda>n. 1000 \<le> n" and env_x = "\<lambda>p. False"] h f x t
    by simp
qed


text \<open>
  The claim as stated fails when the device answers the first probe and the stop is
  requested while that probe is in flight: the flag is set once one probe has been
  issued, and the scan ends with the "found" report, not with the cancellation report.
\<close>

theorem stop_during_successful_probe_counterexample:
  "stop_requested_after 1 1
   \<and> probes (fst (sequential_search (only_device (1, 115200)) (stop_requested_after 1)))
       = [(1, 115200)]
   \<and> snd (sequential_search (only_device (1, 115200)) (stop_requested_after 1)) = Found 1 115200
   \<and> snd (sequential_search (only_device (1, 115200)) (stop_requested_after 1)) \<noteq> Cancelled"
  by code_simp

section \<open>Identity decoding: payloads shorter than the layout\<close>

subsection \<open>Every statement of the decoder succeeds on hexadecimal text\<close>

lemma int16_digits_hex: "is_hex s \<Longrightarrow> int16_digits acc s \<noteq> None"
  by (induction s arbitrary: acc) (auto simp: is_hex_def)

lemma py_int16_hex: "is_hex s \<Longrightarrow> s \<noteq> [] \<Longrightarrow> py_int16 s \<noteq> None"
  by (simp add: py_int16_def int16_digits_hex)

lemma chunk2_hex: "is_hex s \<Longrightarrow> x \<in> set (chunk2 s) \<Longrightarrow> is_hex x \<and> x \<noteq> []"
  by (induction s rule: chunk2.induct) (auto simp: is_hex_def)

lemma is_hex_append: "is_hex (xs @ ys) \<longleftrightarrow> is_hex xs \<and> is_hex ys"
  by (simp add: is_hex_def)

lemma slice2: "n + 2 \<le> length xs \<Longrightarrow> py_slice xs n (n + 2) = [xs ! n, xs ! (n + 1)]"
  unfolding py_slice_def
  by (simp add: take_Suc_conv_app_nth numeral_2_eq_2 take_Suc Cons_nth_drop_Suc [symmetric] hd_drop_conv_nth)

lemma slice4:
  "n + 4 \<le> length xs \<Longrightarrow> py_slice xs n (n + 4) = [xs ! n, xs ! (n + 1), xs ! (n + 2), xs ! (n + 3)]"
  unfolding py_slice_def
  by (simp add: numeral_eq_Suc take_Suc Cons_nth_drop_Suc [symmetric] hd_drop_conv_nth)

lemma is_hex_concat: "(\<forall>x\<in>set xs. is_hex x) \<Longrightarrow> is_hex (concat xs)"
  by (induction xs) (simp_all add: is_hex_def)

lemma py_slice_parts:
  assumes "\<forall>x\<in>set xs. is_hex x \<and> x \<noteq> []" and "j \<le> length xs"
  shows "length (py_slice xs i j) = j - i"
    and "\<forall>x\<in>set (py_slice xs i j). is_hex x \<and> x \<noteq> []"
proof -
  from assms(2) show "length (py_slice xs i j) = j - i"
    by (simp add: py_slice_def)
  have "set (py_slice xs i j) \<subseteq> set xs"
    unfolding py_slice_def by (meson set_drop_subset set_take_subset subset_trans)
  with assms(1) show "\<forall>x\<in>set (py_slice xs i j). is_hex x \<and> x \<noteq> []"
    by blast
qed

lemma py_int16_concat:
  assumes "\<forall>x\<in>set ys. is_hex x \<and> x \<noteq> []" and "ys \<noteq> []"
  shows "py_int16 (concat ys) \<noteq> None"
proof -
  from assms(1) have "is_hex (concat ys)" by (simp add: is_hex_concat)
  moreover from assms have "concat ys \<noteq> []" by (cases ys) auto
  ultimately show ?thesis by (rule py_int16_hex)
qed

lemma reversed_word_decodes:
  assumes "\<forall>x\<in>set four_bytes. is_hex x \<and> x \<noteq> []" and "four_bytes \<noteq> []"
  shows "reversed_word four_bytes \<noteq> None"
proof -
  from assms have "py_int16 (concat (rev four_bytes)) \<noteq> None"
    by (intro py_int16_concat) simp_all
  then show ?thesis
    by (auto simp: reversed_word_def Let_def)
qed

lemma version_of_decodes:
  assumes "\<forall>x\<in>set two_bytes. is_hex x \<and> x \<noteq> []" and "length two_bytes = 2"
  shows "version_of two_bytes \<noteq> None"
proof -
  from assms have "two_bytes ! 0 \<in> set two_bytes" "two_bytes ! 1 \<in> set two_bytes"
    by simp_all
  with assms(1) have "py_int16 (two_bytes ! 0) \<noteq> None" "py_int16 (two_bytes ! 1) \<noteq> None"
    by (simp_all add: py_int16_hex)
  then show ?thesis
    by (auto simp: version_of_def)
qed

lemma magic_step_sets:
  assumes "\<forall>x\<in>set bl. is_hex x \<and> x \<noteq> []" and "32 \<le> length bl"
  shows "\<exists>f. magic_step bl p = Some (p\<lparr>magic := Some f\<rparr>)"
proof -
  from assms(2) have "8 \<le> length bl" by simp
  from py_slice_parts [OF assms(1) this, of 4]
  have "length (py_slice bl 4 8) = 8 - 4"
    and "\<forall>x\<in>set (py_slice bl 4 8). is_hex x \<and> x \<noteq> []"
    by blast+
  then have "reversed_word (py_slice bl 4 8) \<noteq> None"
    by (intro reversed_word_decodes) auto
  with assms(2) show ?thesis
    by (auto simp: magic_step_def)
qed

lemma product_id_step_sets:
  assumes "\<forall>x\<in>set bl. is_hex x \<and> x \<noteq> []" and "32 \<le> length bl"
  shows "\<exists>f. product_id_step bl p = Some (p\<lparr>product_id := Some f\<rparr>)"
proof -
  from assms(2) have "32 \<le> length bl" by simp
  from py_slice_parts [OF assms(1) this, of 28]
  have "length (py_slice bl 28 32) = 32 - 28"
    and "\<forall>x\<in>set (py_slice bl 28 32). is_hex x \<and> x \<noteq> []"
    by blast+
  then have "reversed_word (py_slice bl 28 32) \<noteq> None"
    by (intro reversed_word_decodes) auto
  with assms(2) show ?thesis
    by (auto simp: product_id_step_def)
qed

lemma software_step_sets:
  assumes "\<forall>x\<in>set bl. is_hex x \<and> x \<noteq> []" and "32 \<le> length bl"
  shows "\<exists>f. software_step bl p = Some (p\<lparr>software := Some f\<rparr>)"
proof -
  from assms(2) have "10 \<le> length bl" by simp
  from py_slice_parts [OF assms(1) this, of 8]
  have "length (py_slice bl 8 10) = 10 - 8"
    and "\<forall>x\<in>set (py_slice bl 8 10). is_hex x \<and> x \<noteq> []"
    by blast+
  then have "version_of (py_slice bl 8 10) \<noteq> None"
    by (intro version_of_decodes) auto
  with assms(2) show ?thesis
    by (auto simp: software_step_def)
qed

lemma hardware_step_sets:
  assumes "\<forall>x\<in>set bl. is_hex x \<and> x \<noteq> []" and "32 \<le> length bl"
  shows "\<exists>f. hardware_step bl p = Some (p\<lparr>hardware := Some f\<rparr>)"
proof -
  from assms(2) have "12 \<le> length bl" by simp
  from py_slice_parts [OF assms(1) this, of 10]
  have "length (py_slice bl 10 12) = 12 - 10"
    and "\<forall>x\<in>set (py_slice bl 10 12). is_hex x \<and> x \<noteq> []"
    by blast+
  then have "version_of (py_slice bl 10 12) \<noteq> None"
    by (intro version_of_decodes) auto
  with assms(2) show ?thesis
    by (auto simp: hardware_step_def)
qed

lemma ver_status_step_sets:
  assumes "\<forall>x\<in>set bl. is_hex x \<and> x \<noteq> []" and "32 \<le> length bl"
  shows "\<exists>f. ver_status_step bl p = Some (p\<lparr>ver_status := Some f\<rparr>)"
proof -
  from assms(2) have "16 \<le> length bl" by simp
  from py_slice_parts [OF assms(1) this, of 12]
  have "length (py_slice bl 12 16) = 16 - 12"
    and "\<forall>x\<in>set (py_slice bl 12 16). is_hex x \<and> x \<noteq> []"
    by blast+
  then have "py_int16 (concat (py_slice bl 12 16)) \<noteq> None"
    by (intro py_int16_concat) auto
  with assms(2) show ?thesis
    by (auto simp: ver_status_step_def Let_def)
qed

lemma status_step_sets:
  assumes "32 \<le> length bl"
  shows "\<exists>f. status_step bl p = Some (p\<lparr>status := Some f\<rparr>)"
proof -
  from assms have "20 \<le> length bl" by simp
  then have "status_step bl p = Some (p\<lparr>status :=
      Some \<lparr>wf_value = status_text_of (concat (rev (py_slice bl 16 20))),
            wf_hex_format = join_space (py_slice bl 16 20),
            wf_reversed_hex = upper (concat (rev (py_slice bl 16 20)))\<rparr>\<rparr>)"
    by (simp add: status_step_def Let_def)
  then show ?thesis by (rule exI)
qed

lemma io_counts_step_sets:
  assumes "\<forall>x\<in>set bl. is_hex x \<and> x \<noteq> []" and "32 \<le> length bl"
  shows "\<exists>f. io_counts_step bl p = Some (p\<lparr>io_counts := Some f\<rparr>)"
proof -
  let ?io = "py_slice bl 20 24"
  from assms(2) have "24 \<le> length bl" by simp
  from py_slice_parts [OF assms(1) this, of 20]
  have len: "length ?io = 24 - 20"
    and hex: "\<forall>x\<in>set ?io. is_hex x \<and> x \<noteq> []"
    by blast+
  from len have "?io ! 0 \<in> set ?io" "?io ! 1 \<in> set ?io" "?io ! 2 \<in> set ?io" "?io ! 3 \<in> set ?io"
    by simp_all
  with hex have "py_int16 (?io ! 0) \<noteq> None" "py_int16 (?io ! 1) \<noteq> None"
    "py_int16 (?io ! 2) \<noteq> None" "py_int16 (?io ! 3) \<noteq> None"
    by (simp_all add: py_int16_hex)
  with assms(2) show ?thesis
    by (auto simp: io_counts_step_def Let_def)
qed

lemma crc_step_short: "\<not> 34 \<le> length bl \<Longrightarrow> crc_step bl p = Some p"
  by (simp add: crc_step_def)

lemma crc_step_sets:
  assumes "\<forall>x\<in>set bl. is_hex x \<and> x \<noteq> []" and "34 \<le> length bl"
  shows "\<exists>f. crc_step bl p = Some (p\<lparr>crc_entry := Some f\<rparr>)"
proof -
  let ?crc = "drop (length bl - 2) bl"
  have "set ?crc \<subseteq> set bl" by (rule set_drop_subset)
  with assms(1) have "\<forall>x\<in>set ?crc. is_hex x \<and> x \<noteq> []" by blast
  moreover from assms(2) have "?crc \<noteq> []" by simp
  ultimately have "py_int16 (concat ?crc) \<noteq> None"
    by (rule py_int16_concat)
  with assms(2) show ?thesis
    by (auto simp: crc_step_def Let_def)
qed

lemma try_block_decodes_all:
  assumes wf: "\<forall>x\<in>set bl. is_hex x \<and> x \<noteq> []" and len: "32 \<le> length bl"
    and clean: "\<not> parse_error p0" "crc_entry p0 = None"
  defines "p \<equiv> try_block
      [magic_step bl, software_step bl, hardware_step bl, ver_status_step bl, status_step bl,
       io_counts_step bl, product_id_step bl, crc_step bl] p0"
  shows "magic p \<noteq> None \<and> software p \<noteq> None \<and> hardware p \<noteq> None \<and> ver_status p \<noteq> None
         \<and> status p \<noteq> None \<and> io_counts p \<noteq> None \<and> product_id p \<noteq> None
         \<and> (crc_entry p \<noteq> None \<longleftrightarrow> 34 \<le> length bl) \<and> \<not> parse_error p"
proof -
  obtain f1 where s1: "magic_step bl p0 = Some (p0\<lparr>magic := Some f1\<rparr>)"
    using magic_step_sets [OF wf len] by blast
  let ?p1 = "p0\<lparr>magic := Some f1\<rparr>"
  obtain f2 where s2: "software_step bl ?p1 = Some (?p1\<lparr>software := Some f2\<rparr>)"
    using software_step_sets [OF wf len] by blast
  let ?p2 = "?p1\<lparr>software := Some f2\<rparr>"
  obtain f3 where s3: "hardware_step bl ?p2 = Some (?p2\<lparr>hardware := Some f3\<rparr>)"
    using hardware_step_sets [OF wf len] by blast
  let ?p3 = "?p2\<lparr>hardware := Some f3\<rparr>"
  obtain f4 where s4: "ver_status_step bl ?p3 = Some (?p3\<lparr>ver_status := Some f4\<rparr>)"
    using ver_status_step_sets [OF wf len] by blast
  let ?p4 = "?p3\<lparr>ver_status := Some f4\<rparr>"
  obtain f5 where s5: "status_step bl ?p4 = Some (?p4\<lparr>status := Some f5\<rparr>)"
    using status_step_sets [OF len] by blast
  let ?p5 = "?p4\<lparr>status := Some f5\<rparr>"
  obtain f6 where s6: "io_counts_step bl ?p5 = Some (?p5\<lparr>io_counts := Some f6\<rparr>)"
    using io_counts_step_sets [OF wf len] by blast
  let ?p6 = "?p5\<lparr>io_counts := Some f6\<rparr>"
  obtain f7 where s7: "product_id_step bl ?p6 = Some (?p6\<lparr>product_id := Some f7\<rparr>)"
    using product_id_step_sets [OF wf len] by blast
  let ?p7 = "?p6\<lparr>product_id := Some f7\<rparr>"
  show ?thesis
  proof (cases "34 \<le> length bl")
    case True
    then obtain f8 where s8: "crc_step bl ?p7 = Some (?p7\<lparr>crc_entry := Some f8\<rparr>)"
      using crc_step_sets [OF wf] by blast
    have "p = ?p7\<lparr>crc_entry := Some f8\<rparr>"
      unfolding p_def by (simp add: s1 s2 s3 s4 s5 s6 s7 s8)
    with True clean show ?thesis by simp
  next
    case False
    then have s8: "crc_step bl ?p7 = Some ?p7"
      by (rule crc_step_short)
    have "p = ?p7"
      unfolding p_def by (simp add: s1 s2 s3 s4 s5 s6 s7 s8)
    with False clean show ?thesis by simp
  qed
qed

lemma parse_short:
  "payload_length hex_response < 32 \<Longrightarrow> parse_specific_device_response hex_response = InsufficientData"
  by (simp add: parse_specific_device_response_def payload_length_def Let_def)

lemma parse_long:
  assumes "hex_text hex_response" and "32 \<le> payload_length hex_response"
  shows "\<exists>p. parse_specific_device_response hex_response = Parsed p
           \<and> magic p \<noteq> None \<and> software p \<noteq> None \<and> hardware p \<noteq> None
           \<and> ver_status p \<noteq> None \<and> status p \<noteq> None \<and> io_counts p \<noteq> None
           \<and> product_id p \<noteq> None
           \<and> (crc_entry p \<noteq> None \<longleftrightarrow> 34 \<le> payload_length hex_response)
           \<and> \<not> parse_error p"
proof -
  define bl where "bl = chunk2 (strip_separators hex_response)"
  from assms(1) have wf: "\<forall>x\<in>set bl. is_hex x \<and> x \<noteq> []"
    unfolding bl_def hex_text_def using chunk2_hex by blast
  from assms(2) have len: "32 \<le> length bl"
    by (simp add: bl_def payload_length_def)
  have pl: "payload_length hex_response = length bl"
    by (simp add: bl_def payload_length_def)
  from len have "0 < length bl" "1 < length bl" by linarith+
  then have "bl ! 0 \<in> set bl" "bl ! 1 \<in> set bl" by (simp_all only: nth_mem)
  with wf have "is_hex (bl ! 0)" "bl ! 0 \<noteq> []" "is_hex (bl ! 1)" "bl ! 1 \<noteq> []"
    by blast+
  then have "py_int16 (bl ! 0) \<noteq> None" "py_int16 (bl ! 1) \<noteq> None"
    by (simp_all only: py_int16_hex not_False_eq_True)
  then obtain d f where d: "py_int16 (bl ! 0) = Some d" and f: "py_int16 (bl ! 1) = Some f"
    by auto
  define p0 where "p0 =
      \<lparr>header_device_address = decimal d @ '' (0x'' @ upper (bl ! 0) @ '')'',
       header_function_code = decimal f @ '' (0x'' @ upper (bl ! 1) @ '')'',
       magic = None, software = None, hardware = None, ver_status = None,
       status = None, io_counts = None, product_id = None,
       raw_hex = hex_response, byte_count = length bl,
       crc_entry = None, parse_error = False\<rparr>"
  define p where "p = try_block
      [magic_step bl, software_step bl, hardware_step bl, ver_status_step bl, status_step bl,
       io_counts_step bl, product_id_step bl, crc_step bl] p0"
  from len have nshort: "\<not> length bl < 32" by simp
  have eq: "parse_specific_device_response hex_response = Parsed p"
    unfolding parse_specific_device_response_def Let_def bl_def [symmetric]
    by (simp only: nshort if_False d f option.case p_def p0_def)
  have clean: "\<not> parse_error p0" "crc_entry p0 = None"
    by (simp_all add: p0_def)
  from try_block_decodes_all [OF wf len clean, folded p_def]
  have "magic p \<noteq> None \<and> software p \<noteq> None \<and> hardware p \<noteq> None \<and> ver_status p \<noteq> None
         \<and> status p \<noteq> None \<and> io_counts p \<noteq> None \<and> product_id p \<noteq> None
         \<and> (crc_entry p \<noteq> None \<longleftrightarrow> 34 \<le> length bl) \<and> \<not> parse_error p" .
  then have "parse_specific_device_response hex_response = Parsed p
           \<and> magic p \<noteq> None \<and> software p \<noteq> None \<and> hardware p \<noteq> None
           \<and> ver_status p \<noteq> None \<and> status p \<noteq> None \<and> io_counts p \<noteq> None
           \<and> product_id p \<noteq> None
           \<and> (crc_entry p \<noteq> None \<longleftrightarrow> 34 \<le> payload_length hex_response)
           \<and> \<not> parse_error p"
    unfolding pl using eq by (simp only: simp_thms)
  then show ?thesis by (rule exI)
qed

subsection \<open>Which fields are decoded\<close>

text \<open>
  C9, as amended. The claim says that a field beyond the end of a short payload is left
  out while the fields that fit are decoded; the decoder first rejects every payload of
  fewer than 32 bytes as a whole (line 23), so none of its per-field length tests can
  fail (see the counterexample below). What holds:
  \<^item> for every payload of at least 32 bytes, given as hexadecimal text, the decoder
    returns a result that holds all of magic, software version, hardware version,
    version status, status, I/O counts and product id, and no parse error; the trailing
    checksum entry is present exactly when the payload has at least 34 bytes;
  \<^item> for every payload of fewer than 32 bytes the decoder returns only the
    "insufficient data" error and decodes no field.
\<close>

theorem identity_decoding_needs_32_bytes:
  "(hex_text hex_response \<and> 32 \<le> payload_length hex_response
    \<longrightarrow> (\<exists>p. parse_specific_device_response hex_response = Parsed p
           \<and> magic p \<noteq> None \<and> software p \<noteq> None \<and> hardware p \<noteq> None
           \<and> ver_status p \<noteq> None \<and> status p \<noteq> None \<and> io_counts p \<noteq> None
           \<and> product_id p \<noteq> None
           \<and> (crc_entry p \<noteq> None \<longleftrightarrow> 34 \<le> payload_length hex_response)
           \<and> \<not> parse_error p))
   \<and> (payload_length short_response < 32
    \<longrightarrow> parse_specific_device_response short_response = InsufficientData)"
  using parse_long [of hex_response] parse_short [of short_response] by blast


text \<open>The example payload of 38 bytes, and its first 31 bytes.\<close>

theorem identity_decoding_needs_32_bytes_witness:
  "(\<exists>p. parse_specific_device_response
          ''0F 11 0F FF 99 87 41 77 07 00 01 01 0F 00 00 00 2F 48 50 4F 00 00 20 00 00 00 00 00 FB 5F 19 63 19 62 B1 B2 EB D7''
        = Parsed p
      \<and> magic p \<noteq> None \<and> software p \<noteq> None \<and> hardware p \<noteq> None
      \<and> ver_status p \<noteq> None \<and> status p \<noteq> None \<and> io_counts p \<noteq> None
      \<and> product_id p \<noteq> None \<and> crc_entry p \<noteq> None \<and> \<not> parse_error p)
   \<and> parse_specific_device_response
        ''0F 11 0F FF 99 87 41 77 07 00 01 01 0F 00 00 00 2F 48 50 4F 00 00 20 00 00 00 00 00 FB 5F 19''
      = InsufficientData"
proof -
  let ?long = "''0F 11 0F FF 99 87 41 77 07 00 01 01 0F 00 00 00 2F 48 50 4F 00 00 20 00 00 00 00 00 FB 5F 19 63 19 62 B1 B2 EB D7''"
  let ?short = "''0F 11 0F FF 99 87 41 77 07 00 01 01 0F 00 00 00 2F 48 50 4F 00 00 20 00 00 00 00 00 FB 5F 19''"
  have a: "hex_text ?long \<and> 32 \<le> payload_length ?long"
    by code_simp
  have b: "34 \<le> payload_length ?long"
    by code_simp
  have c: "payload_length ?short < 32"
    by code_simp
  show ?thesis
    using identity_decoding_needs_32_bytes [where hex_response = "?long" and short_response = "?short"]
      a b c
    by blast
qed


text \<open>
  The claim as stated fails on the first 12 bytes of the example payload: magic (bytes
  4 to 7), software version (bytes 8 and 9) and hardware version (bytes 10 and 11) lie
  within the payload, and the decoder returns the error without decoding any of them.
\<close>

theorem partial_payload_counterexample:
  "payload_length ''0F 11 0F FF 99 87 41 77 07 00 01 01'' = 12
   \<and> parse_specific_device_response ''0F 11 0F FF 99 87 41 77 07 00 01 01'' = InsufficientData"
  by code_simp

end
